theory Spec2Isabelle
  imports Main "HOL-Library.Word"
begin

section \<open>Data model\<close>

text \<open>The C++ \<^verbatim>\<open>int\<close> of the sources is a 32-bit machine integer; \<open>+\<close> on it wraps.\<close>

type_synonym int32 = "32 word"

subsection \<open>port-config.h\<close>

text \<open>
  \<^verbatim>\<open>struct PortConfig { std::string multicastIp; std::string multicastBindIp;
                      int rtpPort = -1; int rtcpPort = -1; };\<close>
\<close>

record PortConfig =
  multicastIp :: string
  multicastBindIp :: string
  rtpPort :: int32
  rtcpPort :: int32

text \<open>The implicit default constructor: the strings are default-constructed (empty), the
  two ports take their default member initialisers.\<close>

definition PortConfig_default :: PortConfig where
  "PortConfig_default =
     \<lparr>multicastIp = [], multicastBindIp = [], rtpPort = - 1, rtcpPort = - 1\<rparr>"

subsection \<open>core.cpp: the objects the core handles\<close>

text \<open>A listener is held as a non-owning \<^verbatim>\<open>CoreListener *\<close>, a call as a
  \<^verbatim>\<open>shared_ptr<Call>\<close>: both are compared by identity, which the model keeps as a number.\<close>

type_synonym listener = nat
type_synonym call = nat

text \<open>\<^verbatim>\<open>IdentityAddress\<close> compares (\<^verbatim>\<open>==\<close>, and \<^verbatim>\<open><\<close> inside \<^verbatim>\<open>std::set\<close>) by its
  string form; the model keeps exactly that string.\<close>

datatype IdentityAddress = IdentityAddress (asString: string)

text \<open>What core.cpp reads of a chat room: \<^verbatim>\<open>getLocalAddress()\<close> and
  \<^verbatim>\<open>getUnreadChatMessageCount()\<close> (an \<^verbatim>\<open>int\<close>); the peer address completes its id.\<close>

record ChatRoom =
  getPeerAddress :: IdentityAddress
  getLocalAddress :: IdentityAddress
  ChatRoom_getUnreadChatMessageCount :: int32

datatype Backend = Mysql | Sqlite3

text \<open>Modelled from the spec: \<^verbatim>\<open>MainDb\<close> (the storage engine) is not part of the sources at
  hand. It is consumed through \<^verbatim>\<open>connect(backend, uri)\<close>, which succeeds or fails, and through
  an unread-count query. The record keeps the backend and uri of a successful connect and the
  answer the engine gives to the unread-count query.\<close>

record MainDb =
  connectedTo :: "(Backend \<times> string) option"
  MainDb_getUnreadChatMessageCount :: int32

datatype ListEventHandler = RemoteConferenceListEventHandler | LocalConferenceListEventHandler

text \<open>The fields of \<^verbatim>\<open>CorePrivate\<close> that core.cpp touches. The three smart pointers that
  core.cpp resets or sets to \<^verbatim>\<open>nullptr\<close> are options.\<close>

record CorePrivate =
  mainDb :: "MainDb option"
  remoteListEventHandler :: "ListEventHandler option"
  localListEventHandler :: "ListEventHandler option"
  listeners :: "listener list"
  calls :: "call list"
  chatRooms :: "ChatRoom list"
  chatRoomsById :: "(IdentityAddress \<times> IdentityAddress) \<rightharpoonup> ChatRoom"
  noCreatedClientGroupChatRooms :: "ChatRoom list"
  isInBackground :: bool

text \<open>Modelled from the spec: the declaration of \<^verbatim>\<open>CorePrivate\<close> (core-p.h) is not part of
  the sources at hand. A new session has empty collections, no sub-objects yet, and the
  execution state "foreground".\<close>

definition new_CorePrivate :: CorePrivate where
  "new_CorePrivate =
     \<lparr>mainDb = None, remoteListEventHandler = None, localListEventHandler = None,
      listeners = [], calls = [], chatRooms = [], chatRoomsById = Map.empty,
      noCreatedClientGroupChatRooms = [], isInBackground = False\<rparr>"

datatype LinphoneGlobalState =
  LinphoneGlobalOff | LinphoneGlobalStartup | LinphoneGlobalOn
  | LinphoneGlobalShutdown | LinphoneGlobalConfiguring

datatype LinphoneRegistrationState =
  LinphoneRegistrationNone | LinphoneRegistrationProgress | LinphoneRegistrationOk
  | LinphoneRegistrationCleared | LinphoneRegistrationFailed

record LinphoneProxyConfig =
  identity_address :: IdentityAddress

text \<open>The five virtual methods of \<^verbatim>\<open>CoreListener\<close>, with their arguments.\<close>

datatype callback =
  onGlobalStateChanged LinphoneGlobalState
  | onNetworkReachable bool bool
  | onRegistrationStateChanged LinphoneProxyConfig LinphoneRegistrationState string
  | onEnteringBackground
  | onEnteringForeground

text \<open>One callback invocation, as an observer of the core sees it.\<close>

type_synonym invocation = "listener \<times> callback"

text \<open>What the listeners do is code of the application. A callback may change the core in any
  way (registering and unregistering listeners included), and it may call back into the core,
  which then invokes callbacks again. So the code of a callback gives, for the core it is
  invoked on, the callback invocations that happen while it runs, in order, and the core it
  leaves.\<close>

type_synonym listener_code =
  "listener \<Rightarrow> callback \<Rightarrow> CorePrivate \<Rightarrow> invocation list \<times> CorePrivate"

text \<open>What a broadcast gives: first the invocations that its own loop makes; then all the
  invocations that happen during it, those inside the callbacks included, in order; then the
  core afterwards.\<close>

type_synonym broadcast = "invocation list \<times> invocation list \<times> CorePrivate"

definition delivered :: "broadcast \<Rightarrow> invocation list" where
  "delivered b = fst (snd b)"

definition core_after :: "broadcast \<Rightarrow> CorePrivate" where
  "core_after b = snd (snd b)"

section \<open>Listener registry\<close>

text \<open>\<^verbatim>\<open>listeners.push_back(listener)\<close>\<close>

definition registerListener :: "listener \<Rightarrow> CorePrivate \<Rightarrow> CorePrivate" where
  "registerListener l d = d\<lparr>listeners := listeners d @ [l]\<rparr>"

text \<open>\<^verbatim>\<open>listeners.remove(listener)\<close>: \<^verbatim>\<open>std::list::remove\<close> erases every element equal to
  its argument.\<close>

definition unregisterListener :: "listener \<Rightarrow> CorePrivate \<Rightarrow> CorePrivate" where
  "unregisterListener l d = d\<lparr>listeners := removeAll l (listeners d)\<rparr>"

text \<open>\<^verbatim>\<open>for (const auto &listener : listenersCopy) listener->cb(args);\<close> The loop runs over its
  own list while every callback works on the core: each callback is invoked on the core that
  the callback before it left.\<close>

fun for_each_listener ::
  "listener_code \<Rightarrow> callback \<Rightarrow> listener list \<Rightarrow> CorePrivate \<Rightarrow> broadcast"
where
  "for_each_listener code cb [] d = ([], [], d)"
| "for_each_listener code cb (l # ls) d =
     (case code l cb d of
        (inside, d1) \<Rightarrow>
          (case for_each_listener code cb ls d1 of
             (made, happened, d2) \<Rightarrow> ((l, cb) # made, (l, cb) # inside @ happened, d2)))"

definition notifyGlobalStateChanged ::
  "listener_code \<Rightarrow> LinphoneGlobalState \<Rightarrow> CorePrivate \<Rightarrow> broadcast"
where
  "notifyGlobalStateChanged code state d =
     (let listenersCopy = listeners d
      in for_each_listener code (onGlobalStateChanged state) listenersCopy d)"

definition notifyNetworkReachable ::
  "listener_code \<Rightarrow> bool \<Rightarrow> bool \<Rightarrow> CorePrivate \<Rightarrow> broadcast"
where
  "notifyNetworkReachable code sipNetworkReachable mediaNetworkReachable d =
     (let listenersCopy = listeners d
      in for_each_listener code
           (onNetworkReachable sipNetworkReachable mediaNetworkReachable) listenersCopy d)"

definition notifyRegistrationStateChanged ::
  "listener_code \<Rightarrow> LinphoneProxyConfig \<Rightarrow> LinphoneRegistrationState \<Rightarrow> string
     \<Rightarrow> CorePrivate \<Rightarrow> broadcast"
where
  "notifyRegistrationStateChanged code cfg state message d =
     (let listenersCopy = listeners d
      in for_each_listener code (onRegistrationStateChanged cfg state message) listenersCopy d)"

text \<open>How often a trace of invocations calls listener \<open>l\<close>.\<close>

definition times_notified :: "invocation list \<Rightarrow> listener \<Rightarrow> nat" where
  "times_notified tr l = length (filter (\<lambda>i. fst i = l) tr)"

section \<open>Execution state\<close>

definition notifyEnteringBackground :: "listener_code \<Rightarrow> CorePrivate \<Rightarrow> broadcast" where
  "notifyEnteringBackground code d =
     (if isInBackground d then ([], [], d)
      else
        (let d1 = d\<lparr>isInBackground := True\<rparr>;
             listenersCopy = listeners d1
         in for_each_listener code onEnteringBackground listenersCopy d1))"

definition notifyEnteringForeground :: "listener_code \<Rightarrow> CorePrivate \<Rightarrow> broadcast" where
  "notifyEnteringForeground code d =
     (if \<not> isInBackground d then ([], [], d)
      else
        (let d1 = d\<lparr>isInBackground := False\<rparr>;
             listenersCopy = listeners d1
         in for_each_listener code onEnteringForeground listenersCopy d1))"

text \<open>\<^verbatim>\<open>Core::enterBackground\<close> and \<^verbatim>\<open>Core::enterForeground\<close> only forward to the private
  object.\<close>

definition enterBackground :: "listener_code \<Rightarrow> CorePrivate \<Rightarrow> broadcast" where
  "enterBackground code d = notifyEnteringBackground code d"

definition enterForeground :: "listener_code \<Rightarrow> CorePrivate \<Rightarrow> broadcast" where
  "enterForeground code d = notifyEnteringForeground code d"

section \<open>Collaborators\<close>

text \<open>Ways in which a run of the core can end other than by returning: the dereference of a
  null pointer, and a report at fatal level.\<close>

datatype fault = NullPointerDereference | Fatal string

text \<open>The configuration: values by section and key.\<close>

type_synonym LpConfig = "string \<times> string \<rightharpoonup> string"

text \<open>Modelled from the spec: the configuration accessor is not part of the sources at hand.
  \<^verbatim>\<open>lp_config_get_string(config, section, key, default_string)\<close> gives the value stored under
  the key of the section, and \<open>default_string\<close> when there is none. A \<^verbatim>\<open>const char *\<close> is an
  optional string, \<^verbatim>\<open>nullptr\<close> being \<open>None\<close>.\<close>

definition lp_config_get_string ::
  "LpConfig \<Rightarrow> string \<Rightarrow> string \<Rightarrow> string option \<Rightarrow> string option"
where
  "lp_config_get_string cfg section key default_string =
     (case cfg (section, key) of Some v \<Rightarrow> Some v | None \<Rightarrow> default_string)"

text \<open>Modelled from the spec: the macro \<^verbatim>\<open>L_C_TO_STRING\<close> is not part of the sources at hand;
  it turns a C string into a \<^verbatim>\<open>std::string\<close>, a null pointer into the empty string (the spec
  gives the uri the default "empty").\<close>

definition L_C_TO_STRING :: "string option \<Rightarrow> string" where
  "L_C_TO_STRING str = (case str of None \<Rightarrow> [] | Some s \<Rightarrow> s)"

text \<open>The C library's \<^verbatim>\<open>strcmp\<close>: zero for equal strings, otherwise the sign of the first
  difference. It reads through both pointers, so a null argument is a fault.\<close>

fun strcmp_chars :: "string \<Rightarrow> string \<Rightarrow> int" where
  "strcmp_chars [] [] = 0"
| "strcmp_chars [] (y # ys) = - 1"
| "strcmp_chars (x # xs) [] = 1"
| "strcmp_chars (x # xs) (y # ys) =
     (if x = y then strcmp_chars xs ys
      else if (of_char x :: nat) < of_char y then - 1 else 1)"

definition strcmp :: "string option \<Rightarrow> string option \<Rightarrow> fault + int" where
  "strcmp s1 s2 =
     (case (s1, s2) of
        (Some a, Some b) \<Rightarrow> Inr (strcmp_chars a b)
      | _ \<Rightarrow> Inl NullPointerDereference)"

text \<open>What core.cpp reads of the C core (\<^verbatim>\<open>L_GET_C_BACK_PTR\<close>, \<^verbatim>\<open>getCCore()\<close>): its
  configuration, its primary contact and the identity of each proxy configuration, both
  already as the \<^verbatim>\<open>IdentityAddress\<close> that the set receives.\<close>

record LinphoneCore =
  config :: LpConfig
  primary_contact_parsed :: IdentityAddress
  proxy_config_list :: "LinphoneProxyConfig list"

text \<open>Code that \<^verbatim>\<open>init\<close> calls and that lives elsewhere: the data path, the storage engine's
  constructor and \<^verbatim>\<open>connect\<close> (success flag and the engine afterwards), and the loading of
  the persisted chat rooms, which may change the core in any way.\<close>

record Collaborators =
  getDataPath :: string
  new_MainDb :: MainDb
  MainDb_connect :: "Backend \<Rightarrow> string \<Rightarrow> MainDb \<Rightarrow> bool \<times> MainDb"
  loadChatRooms :: "CorePrivate \<Rightarrow> CorePrivate"

text \<open>Code that \<^verbatim>\<open>uninit\<close> calls and that lives elsewhere. The calls and the network have a
  state of their own, outside the fields of \<^verbatim>\<open>CorePrivate\<close>: the world \<open>'w\<close>.
  \<^verbatim>\<open>Call::terminate\<close> and the event loop's tick \<^verbatim>\<open>linphone_core_iterate\<close> may change the world
  and the core in any way; while the thread sleeps in \<^verbatim>\<open>ms_usleep\<close> only the world moves on.\<close>

record 'w Runtime =
  Call_terminate :: "call \<Rightarrow> 'w \<times> CorePrivate \<Rightarrow> 'w \<times> CorePrivate"
  linphone_core_iterate :: "'w \<times> CorePrivate \<Rightarrow> 'w \<times> CorePrivate"
  ms_usleep :: "nat \<Rightarrow> 'w \<Rightarrow> 'w"

section \<open>Lifecycle\<close>

definition LINPHONE_DB :: string where
  "LINPHONE_DB = ''linphone.db''"

text \<open>The choice of backend and uri at the head of \<^verbatim>\<open>CorePrivate::init\<close>. Both reads of the
  configuration pass \<^verbatim>\<open>nullptr\<close> as the default.\<close>

definition storage_selection :: "Collaborators \<Rightarrow> LinphoneCore \<Rightarrow> fault + (Backend \<times> string)" where
  "storage_selection env lc =
     (let uri = L_C_TO_STRING (lp_config_get_string (config lc) ''storage'' ''uri'' None)
      in if uri \<noteq> [] then
           (case strcmp (lp_config_get_string (config lc) ''storage'' ''backend'' None)
                   (Some ''mysql'') of
              Inl f \<Rightarrow> Inl f
            | Inr c \<Rightarrow> Inr (if c = 0 then Mysql else Sqlite3, uri))
         else Inr (Sqlite3, getDataPath env @ LINPHONE_DB))"

text \<open>Modelled from the spec: the logger behind \<^verbatim>\<open>lFatal()\<close> is not part of the sources at
  hand. A report at fatal level is not a recoverable error: it ends the run, which the model
  gives as the fault \<open>Fatal\<close> with the message.\<close>

definition lFatal :: "string \<Rightarrow> fault + 'a" where
  "lFatal message = Inl (Fatal message)"

definition init :: "Collaborators \<Rightarrow> LinphoneCore \<Rightarrow> CorePrivate \<Rightarrow> fault + CorePrivate" where
  "init env lc d =
     (let d1 = d\<lparr>mainDb := Some (new_MainDb env),
                 remoteListEventHandler := Some RemoteConferenceListEventHandler,
                 localListEventHandler := Some LocalConferenceListEventHandler\<rparr>
      in case storage_selection env lc of
           Inl f \<Rightarrow> Inl f
         | Inr (backend, uri) \<Rightarrow>
             (case MainDb_connect env backend uri (new_MainDb env) of
                (connected, db) \<Rightarrow>
                  if \<not> connected then lFatal ''Unable to open linphone database.''
                  else Inr (loadChatRooms env (d1\<lparr>mainDb := Some db\<rparr>))))"

text \<open>The calls that \<^verbatim>\<open>uninit\<close> makes to the outside, in order.\<close>

datatype effect = Terminate call | Iterate | Usleep nat | ClearSipAddressesCache

text \<open>\<^verbatim>\<open>while (!calls.empty()) { calls.front()->terminate(); linphone_core_iterate(...);
  ms_usleep(10000); }\<close> Nothing bounds the loop: it ends when the collection has been emptied,
  and \<open>None\<close> stands for a loop that never ends.\<close>

partial_function (option) drain_calls ::
  "'w Runtime \<Rightarrow> 'w \<times> CorePrivate \<Rightarrow> effect list \<Rightarrow> (effect list \<times> 'w \<times> CorePrivate) option"
where
  "drain_calls rt s made =
     (case calls (snd s) of
        [] \<Rightarrow> Some (made, s)
      | c # _ \<Rightarrow>
          (let s1 = Call_terminate rt c s;
               s2 = linphone_core_iterate rt s1;
               s3 = (ms_usleep rt 10000 (fst s2), snd s2)
           in drain_calls rt s3 (made @ [Terminate c, Iterate, Usleep 10000])))"

declare drain_calls.simps [code]

text \<open>The statements of \<^verbatim>\<open>uninit\<close> after the loop.\<close>

definition teardown :: "CorePrivate \<Rightarrow> CorePrivate" where
  "teardown d =
     d\<lparr>chatRooms := [], chatRoomsById := Map.empty, noCreatedClientGroupChatRooms := [],
       remoteListEventHandler := None, localListEventHandler := None\<rparr>"

definition uninit ::
  "'w Runtime \<Rightarrow> 'w \<times> CorePrivate \<Rightarrow> (effect list \<times> 'w \<times> CorePrivate) option"
where
  "uninit rt s =
     (case drain_calls rt s [] of
        None \<Rightarrow> None
      | Some (made, w, d1) \<Rightarrow> Some (made @ [ClearSipAddressesCache], w, teardown d1))"

text \<open>One poll cycle in the words of the spec, to compare the loop with: with a call left,
  request the termination of the first remaining call, give the event loop one tick, sleep
  10 ms (10000 microseconds). Without a call left there is no cycle.\<close>

definition turn :: "'w Runtime \<Rightarrow> 'w \<times> CorePrivate \<Rightarrow> 'w \<times> CorePrivate" where
  "turn rt s =
     (case calls (snd s) of
        [] \<Rightarrow> s
      | c # _ \<Rightarrow>
          (ms_usleep rt 10000 (fst (linphone_core_iterate rt (Call_terminate rt c s))),
           snd (linphone_core_iterate rt (Call_terminate rt c s))))"

definition turn_effects :: "'w \<times> CorePrivate \<Rightarrow> effect list" where
  "turn_effects s =
     (case calls (snd s) of [] \<Rightarrow> [] | c # _ \<Rightarrow> [Terminate c, Iterate, Usleep 10000])"

text \<open>The effects of the first \<open>k\<close> cycles from \<open>s\<close> on.\<close>

definition effects_of_turns :: "'w Runtime \<Rightarrow> nat \<Rightarrow> 'w \<times> CorePrivate \<Rightarrow> effect list" where
  "effects_of_turns rt k s = concat (map (\<lambda>i. turn_effects ((turn rt ^^ i) s)) [0..<k])"

section \<open>Unread chat messages\<close>

text \<open>\<^verbatim>\<open>return d->mainDb->getUnreadChatMessageCount();\<close>\<close>

definition getUnreadChatMessageCount :: "CorePrivate \<Rightarrow> fault + int32" where
  "getUnreadChatMessageCount d =
     (case mainDb d of
        None \<Rightarrow> Inl NullPointerDereference
      | Some db \<Rightarrow> Inr (MainDb_getUnreadChatMessageCount db))"

text \<open>The overload with a local address: a loop over \<^verbatim>\<open>d->chatRooms\<close> that adds to
  \<^verbatim>\<open>count\<close>.\<close>

definition getUnreadChatMessageCount_localAddress :: "CorePrivate \<Rightarrow> IdentityAddress \<Rightarrow> int32" where
  "getUnreadChatMessageCount_localAddress d localAddress =
     fold (\<lambda>chatRoom count.
             if getLocalAddress chatRoom = localAddress
             then count + ChatRoom_getUnreadChatMessageCount chatRoom
             else count)
       (chatRooms d) 0"

definition getUnreadChatMessageCountFromActiveLocals :: "LinphoneCore \<Rightarrow> CorePrivate \<Rightarrow> int32" where
  "getUnreadChatMessageCountFromActiveLocals lc d =
     (let localAddresses = insert (primary_contact_parsed lc) {};
          localAddresses =
            fold (\<lambda>cfg. insert (identity_address cfg)) (proxy_config_list lc) localAddresses
      in fold (\<lambda>chatRoom count.
                 if getLocalAddress chatRoom \<in> localAddresses
                 then count + ChatRoom_getUnreadChatMessageCount chatRoom
                 else count)
           (chatRooms d) 0)"

text \<open>The active local identities in the words of the spec: the identity of the primary
  contact and the identity of every proxy configuration, as a set.\<close>

definition active_locals :: "LinphoneCore \<Rightarrow> IdentityAddress set" where
  "active_locals lc =
     insert (primary_contact_parsed lc) (identity_address ` set (proxy_config_list lc))"

text \<open>No re-entry during a broadcast of the callback \<open>cb\<close> over the listeners \<open>ls\<close> that
  starts on the core \<open>d\<close>: every callback that the broadcast runs, on the core on which it
  is run, leaves the execution state as it found it, and no invocation of \<open>cb\<close> happens
  inside it.\<close>

fun no_reentry :: "listener_code \<Rightarrow> callback \<Rightarrow> listener list \<Rightarrow> CorePrivate \<Rightarrow> bool" where
  "no_reentry code cb [] d = True"
| "no_reentry code cb (l # ls) d =
     (isInBackground (snd (code l cb d)) = isInBackground d
      \<and> filter (\<lambda>i. snd i = cb) (fst (code l cb d)) = []
      \<and> no_reentry code cb ls (snd (code l cb d)))"

section \<open>Concrete sessions\<close>

text \<open>Listeners that change the registry from inside their callbacks: listener 1 unregisters
  itself and registers listener 7, listener 2 unregisters listener 3, which the running
  broadcast has not reached yet.\<close>

definition meddling_listeners :: listener_code where
  "meddling_listeners l cb d =
     (if l = 1 then ([], registerListener 7 (unregisterListener 1 d))
      else if l = 2 then ([], unregisterListener 3 d)
      else ([], d))"

text \<open>Listeners whose callbacks do nothing, and listeners that go back to the foreground from
  inside their callback for entering the background, by calling \<^verbatim>\<open>enterForeground\<close>; the
  callbacks that this call invokes do nothing. A session with the one listener 1.\<close>

definition quiet_listeners :: listener_code where
  "quiet_listeners l cb d = ([], d)"

definition impatient_listeners :: listener_code where
  "impatient_listeners l cb d =
     (if cb = onEnteringBackground then snd (enterForeground quiet_listeners d) else ([], d))"

definition one_listener :: CorePrivate where
  "one_listener = new_CorePrivate\<lparr>listeners := [1]\<rparr>"

definition three_listeners :: CorePrivate where
  "three_listeners = new_CorePrivate\<lparr>listeners := [1, 2, 3]\<rparr>"

text \<open>Collaborators whose storage engine opens.\<close>

definition prompt_collaborators :: Collaborators where
  "prompt_collaborators =
     \<lparr>getDataPath = ''/data/'',
      new_MainDb = \<lparr>connectedTo = None, MainDb_getUnreadChatMessageCount = 0\<rparr>,
      MainDb_connect = (\<lambda>backend uri db. (True, db\<lparr>connectedTo := Some (backend, uri)\<rparr>)),
      loadChatRooms = (\<lambda>d. d)\<rparr>"

text \<open>A runtime in which a call leaves the collection as soon as its termination is requested,
  and one in which the world counts the ticks that the first call still needs: a tick at 0
  takes the first call out of the collection and sets the count to 1 again, any other tick
  only counts down. A session with two calls in progress.\<close>

definition prompt_runtime :: "unit Runtime" where
  "prompt_runtime =
     \<lparr>Call_terminate = (\<lambda>c (w, d). (w, d\<lparr>calls := remove1 c (calls d)\<rparr>)),
      linphone_core_iterate = (\<lambda>s. s),
      ms_usleep = (\<lambda>us w. w)\<rparr>"

definition slow_runtime :: "nat Runtime" where
  "slow_runtime =
     \<lparr>Call_terminate = (\<lambda>c s. s),
      linphone_core_iterate =
        (\<lambda>(w, d). case w of 0 \<Rightarrow> (1, d\<lparr>calls := tl (calls d)\<rparr>) | Suc n \<Rightarrow> (n, d)),
      ms_usleep = (\<lambda>us w. w)\<rparr>"

definition two_calls :: CorePrivate where
  "two_calls = new_CorePrivate
     \<lparr>remoteListEventHandler := Some RemoteConferenceListEventHandler,
      calls := [4, 9],
      chatRooms := [\<lparr>getPeerAddress = IdentityAddress ''sip:bob@example.org'',
                     getLocalAddress = IdentityAddress ''sip:alice@example.org'',
                     ChatRoom_getUnreadChatMessageCount = 2\<rparr>]\<rparr>"

text \<open>Collaborators whose storage engine cannot be opened.\<close>

definition failing_collaborators :: Collaborators where
  "failing_collaborators = prompt_collaborators\<lparr>MainDb_connect := (\<lambda>backend uri db. (False, db))\<rparr>"

text \<open>A C core without any storage configuration, with a primary contact and two proxy
  configurations that share one identity.\<close>

definition plain_core :: LinphoneCore where
  "plain_core =
     \<lparr>config = Map.empty,
      primary_contact_parsed = IdentityAddress ''sip:bob@example.org'',
      proxy_config_list =
        [\<lparr>identity_address = IdentityAddress ''sip:alice@example.org''\<rparr>,
         \<lparr>identity_address = IdentityAddress ''sip:alice@example.org''\<rparr>]\<rparr>"

text \<open>The configuration \<^verbatim>\<open>[storage] uri=foo\<close>, without a backend key.\<close>

definition uri_only_core :: LinphoneCore where
  "uri_only_core = plain_core\<lparr>config := [(''storage'', ''uri'') \<mapsto> ''foo'']\<rparr>"

text \<open>A session whose storage engine reports three unread messages while no chat room is in
  memory, as after \<^verbatim>\<open>uninit\<close>, which clears the chat rooms and keeps the storage engine.\<close>

definition unread_in_storage :: CorePrivate where
  "unread_in_storage = new_CorePrivate
     \<lparr>mainDb := Some \<lparr>connectedTo = Some (Sqlite3, ''/data/linphone.db''),
                       MainDb_getUnreadChatMessageCount = 3\<rparr>\<rparr>"

text \<open>Three chat rooms with the local addresses of alice, bob and carol and 2, 3 and 5
  unread messages.\<close>

definition three_rooms :: CorePrivate where
  "three_rooms = new_CorePrivate
     \<lparr>chatRooms :=
        [\<lparr>getPeerAddress = IdentityAddress ''sip:dave@example.org'',
          getLocalAddress = IdentityAddress ''sip:alice@example.org'',
          ChatRoom_getUnreadChatMessageCount = 2\<rparr>,
         \<lparr>getPeerAddress = IdentityAddress ''sip:dave@example.org'',
          getLocalAddress = IdentityAddress ''sip:bob@example.org'',
          ChatRoom_getUnreadChatMessageCount = 3\<rparr>,
         \<lparr>getPeerAddress = IdentityAddress ''sip:dave@example.org'',
          getLocalAddress = IdentityAddress ''sip:carol@example.org'',
          ChatRoom_getUnreadChatMessageCount = 5\<rparr>]\<rparr>"

section \<open>The loop over the listeners\<close>

lemma for_each_listener_trace:
  "fst (for_each_listener code cb ls d) = map (\<lambda>l. (l, cb)) ls"
  by (induction ls arbitrary: d) (simp_all add: case_prod_beta)

lemma for_each_listener_state:
  "core_after (for_each_listener code cb ls d) = fold (\<lambda>l d. snd (code l cb d)) ls d"
  by (induction ls arbitrary: d) (simp_all add: case_prod_beta core_after_def)

lemma times_notified_map:
  "times_notified (map (\<lambda>l. (l, cb)) ls) l = count_list ls l"
  by (induction ls) (simp_all add: times_notified_def)

lemma times_notified_append:
  "times_notified (tr @ tr') l = times_notified tr l + times_notified tr' l"
  by (simp add: times_notified_def)

lemma times_notified_Cons:
  "times_notified ((x, cb) # tr) l = (if x = l then 1 else 0) + times_notified tr l"
  by (simp add: times_notified_def)

lemma times_notified_Nil: "times_notified [] l = 0"
  by (simp add: times_notified_def)

lemma for_each_listener_delivered:
  "delivered (for_each_listener code cb ls d)
   = concat (map (\<lambda>i. (ls ! i, cb)
                        # fst (code (ls ! i) cb (fold (\<lambda>l d. snd (code l cb d)) (take i ls) d)))
               [0..<length ls])"
proof (induction ls arbitrary: d)
  case Nil
  then show ?case by (simp add: delivered_def)
next
  case (Cons l ls)
  have "delivered (for_each_listener code cb (l # ls) d)
      = (l, cb) # fst (code l cb d) @ delivered (for_each_listener code cb ls (snd (code l cb d)))"
    by (simp add: delivered_def case_prod_beta)
  then show ?case
    by (simp add: Cons.IH upt_conv_Cons map_Suc_upt[symmetric] comp_def del: upt_Suc)
qed

lemma for_each_listener_no_reentry:
  "no_reentry code cb ls d \<Longrightarrow>
   filter (\<lambda>i. snd i = cb) (delivered (for_each_listener code cb ls d)) = map (\<lambda>l. (l, cb)) ls
   \<and> isInBackground (core_after (for_each_listener code cb ls d)) = isInBackground d"
proof (induction ls arbitrary: d)
  case Nil
  then show ?case by (simp add: delivered_def core_after_def)
next
  case (Cons l ls)
  from Cons.prems have quiet: "filter (\<lambda>i. snd i = cb) (fst (code l cb d)) = []"
    and flag: "isInBackground (snd (code l cb d)) = isInBackground d"
    and rest: "no_reentry code cb ls (snd (code l cb d))"
    by simp_all
  have d: "delivered (for_each_listener code cb (l # ls) d)
      = (l, cb) # fst (code l cb d) @ delivered (for_each_listener code cb ls (snd (code l cb d)))"
    by (simp add: delivered_def case_prod_beta)
  have c: "core_after (for_each_listener code cb (l # ls) d)
      = core_after (for_each_listener code cb ls (snd (code l cb d)))"
    by (simp add: core_after_def case_prod_beta)
  show ?case
    using Cons.IH [OF rest] unfolding d c by (simp add: quiet flag)
qed

lemma no_reentry_never:
  "(\<And>l d. isInBackground (snd (code l cb d)) = isInBackground d
            \<and> filter (\<lambda>i. snd i = cb) (fst (code l cb d)) = []) \<Longrightarrow>
   no_reentry code cb ls d"
  by (induction ls arbitrary: d) simp_all

lemma no_reentry_meddling: "no_reentry meddling_listeners cb ls d"
  by (rule no_reentry_never)
    (simp add: meddling_listeners_def registerListener_def unregisterListener_def)

section \<open>PortConfig\<close>

text \<open>Claim C10. A default-constructed \<^verbatim>\<open>PortConfig\<close> has both ports equal to \<open>-1\<close> (as machine
  integers and read as signed numbers) and both multicast strings empty.\<close>

theorem PortConfig_default_values:
  "rtpPort PortConfig_default = - 1 \<and> rtcpPort PortConfig_default = - 1
   \<and> sint (rtpPort PortConfig_default) = - 1 \<and> sint (rtcpPort PortConfig_default) = - 1
   \<and> multicastIp PortConfig_default = [] \<and> multicastBindIp PortConfig_default = []"
  by (simp add: PortConfig_default_def)

section \<open>Broadcasts\<close>

text \<open>Claim C1. Whatever the listeners' callbacks do to the core, registering and unregistering
  listeners (themselves too) included, each of the three broadcasts invokes its callback on
  the entries of the registry as it stood when the broadcast began: one invocation per entry,
  in registration order, so that every listener is called as often as it was registered at
  that moment (once when it is registered once). The callbacks are run, one after the other
  in this order: the callback of an entry is invoked on the core that the callbacks of the
  entries before it have left, everything that happens during the broadcast is the invocation
  of each entry followed by what happens inside its callback, and the core afterwards is the
  one that the last callback leaves.\<close>

theorem broadcast_over_snapshot:
  "fst (notifyGlobalStateChanged code state d)
     = map (\<lambda>l. (l, onGlobalStateChanged state)) (listeners d)
   \<and> fst (notifyNetworkReachable code sip media d)
     = map (\<lambda>l. (l, onNetworkReachable sip media)) (listeners d)
   \<and> fst (notifyRegistrationStateChanged code cfg rstate message d)
     = map (\<lambda>l. (l, onRegistrationStateChanged cfg rstate message)) (listeners d)
   \<and> times_notified (fst (notifyGlobalStateChanged code state d)) l
     = count_list (listeners d) l
   \<and> times_notified (fst (notifyNetworkReachable code sip media d)) l
     = count_list (listeners d) l
   \<and> times_notified (fst (notifyRegistrationStateChanged code cfg rstate message d)) l
     = count_list (listeners d) l
   \<and> core_after (notifyGlobalStateChanged code state d)
     = fold (\<lambda>l d. snd (code l (onGlobalStateChanged state) d)) (listeners d) d
   \<and> core_after (notifyNetworkReachable code sip media d)
     = fold (\<lambda>l d. snd (code l (onNetworkReachable sip media) d)) (listeners d) d
   \<and> core_after (notifyRegistrationStateChanged code cfg rstate message d)
     = fold (\<lambda>l d. snd (code l (onRegistrationStateChanged cfg rstate message) d)) (listeners d) d
   \<and> delivered (notifyGlobalStateChanged code state d)
     = concat (map (\<lambda>i. (listeners d ! i, onGlobalStateChanged state)
                          # fst (code (listeners d ! i) (onGlobalStateChanged state)
                                  (fold (\<lambda>l d. snd (code l (onGlobalStateChanged state) d))
                                     (take i (listeners d)) d)))
                 [0..<length (listeners d)])
   \<and> delivered (notifyNetworkReachable code sip media d)
     = concat (map (\<lambda>i. (listeners d ! i, onNetworkReachable sip media)
                          # fst (code (listeners d ! i) (onNetworkReachable sip media)
                                  (fold (\<lambda>l d. snd (code l (onNetworkReachable sip media) d))
                                     (take i (listeners d)) d)))
                 [0..<length (listeners d)])
   \<and> delivered (notifyRegistrationStateChanged code cfg rstate message d)
     = concat (map (\<lambda>i. (listeners d ! i, onRegistrationStateChanged cfg rstate message)
                          # fst (code (listeners d ! i) (onRegistrationStateChanged cfg rstate message)
                                  (fold (\<lambda>l d. snd (code l (onRegistrationStateChanged cfg rstate message) d))
                                     (take i (listeners d)) d)))
                 [0..<length (listeners d)])"
  by (simp add: notifyGlobalStateChanged_def notifyNetworkReachable_def
      notifyRegistrationStateChanged_def for_each_listener_trace times_notified_map
      for_each_listener_state for_each_listener_delivered)

text \<open>The three listeners of \<open>three_listeners\<close> are all called, in order, although the first
  leaves the registry and adds a listener and the second removes the third before its turn;
  the registry afterwards is the one that the three callbacks have made.\<close>

theorem broadcast_over_snapshot_witness:
  "fst (notifyGlobalStateChanged meddling_listeners LinphoneGlobalOn three_listeners)
     = [(1, onGlobalStateChanged LinphoneGlobalOn), (2, onGlobalStateChanged LinphoneGlobalOn),
        (3, onGlobalStateChanged LinphoneGlobalOn)]
   \<and> times_notified
        (fst (notifyNetworkReachable meddling_listeners True False three_listeners)) 3 = 1
   \<and> delivered (notifyGlobalStateChanged meddling_listeners LinphoneGlobalOn three_listeners)
     = [(1, onGlobalStateChanged LinphoneGlobalOn), (2, onGlobalStateChanged LinphoneGlobalOn),
        (3, onGlobalStateChanged LinphoneGlobalOn)]
   \<and> listeners
        (core_after (notifyGlobalStateChanged meddling_listeners LinphoneGlobalOn three_listeners))
     = [2, 7]"
proof -
  let ?cfg = "\<lparr>identity_address = IdentityAddress ''sip:alice@example.org''\<rparr>"
  let ?on = "onGlobalStateChanged LinphoneGlobalOn"
  have before: "listeners three_listeners = [1, 2, 3]"
    by (simp add: three_listeners_def)
  have silent: "fst (meddling_listeners l cb d) = []" for l cb d
    by (simp add: meddling_listeners_def)
  have after: "listeners (fold (\<lambda>l d. snd (meddling_listeners l ?on d))
      (listeners three_listeners) three_listeners) = [2, 7]"
    by (simp add: before meddling_listeners_def registerListener_def unregisterListener_def
        three_listeners_def)
  have facts: "fst (notifyGlobalStateChanged meddling_listeners LinphoneGlobalOn three_listeners)
      = map (\<lambda>l. (l, ?on)) (listeners three_listeners)
    \<and> times_notified
        (fst (notifyNetworkReachable meddling_listeners True False three_listeners)) 3
      = count_list (listeners three_listeners) 3
    \<and> core_after (notifyGlobalStateChanged meddling_listeners LinphoneGlobalOn three_listeners)
      = fold (\<lambda>l d. snd (meddling_listeners l ?on d)) (listeners three_listeners) three_listeners
    \<and> delivered (notifyGlobalStateChanged meddling_listeners LinphoneGlobalOn three_listeners)
      = concat (map (\<lambda>i. (listeners three_listeners ! i, ?on)
                          # fst (meddling_listeners (listeners three_listeners ! i) ?on
                                  (fold (\<lambda>l d. snd (meddling_listeners l ?on d))
                                     (take i (listeners three_listeners)) three_listeners)))
                  [0..<length (listeners three_listeners)])"
    using broadcast_over_snapshot [of meddling_listeners LinphoneGlobalOn three_listeners
        True False ?cfg LinphoneRegistrationOk "''ok''" 3]
    by blast
  have own: "fst (notifyGlobalStateChanged meddling_listeners LinphoneGlobalOn three_listeners)
      = [(1, ?on), (2, ?on), (3, ?on)]"
    using facts by (simp add: before)
  have count: "times_notified
      (fst (notifyNetworkReachable meddling_listeners True False three_listeners)) 3 = 1"
    using facts by (simp add: before)
  have all: "delivered (notifyGlobalStateChanged meddling_listeners LinphoneGlobalOn three_listeners)
      = [(1, ?on), (2, ?on), (3, ?on)]"
    unfolding conjunct2 [OF conjunct2 [OF conjunct2 [OF facts]]] before
    by (simp add: silent upt_conv_Cons del: upt_Suc)
  have core: "listeners
      (core_after (notifyGlobalStateChanged meddling_listeners LinphoneGlobalOn three_listeners))
      = [2, 7]"
    unfolding conjunct1 [OF conjunct2 [OF conjunct2 [OF facts]]] by (rule after)
  show ?thesis
    using own count all core by blast
qed

text \<open>Claim C9. \<^verbatim>\<open>registerListener\<close> appends without looking for duplicates and
  \<^verbatim>\<open>unregisterListener\<close> removes every occurrence. So a broadcast after two registrations of
  \<open>l\<close> calls \<open>l\<close> twice more than before them (twice for a listener that was not registered),
  and a broadcast after \<^verbatim>\<open>unregisterListener\<close> does not call \<open>l\<close> and calls the other entries
  as before.\<close>

theorem registry_keeps_duplicates:
  "listeners (registerListener l d) = listeners d @ [l]
   \<and> listeners (unregisterListener l d) = filter (\<lambda>x. x \<noteq> l) (listeners d)
   \<and> times_notified
        (fst (notifyGlobalStateChanged code state (registerListener l (registerListener l d)))) l
      = count_list (listeners d) l + 2
   \<and> times_notified
        (fst (notifyNetworkReachable code sip media (registerListener l (registerListener l d)))) l
      = count_list (listeners d) l + 2
   \<and> times_notified
        (fst (notifyRegistrationStateChanged code cfg rstate message
               (registerListener l (registerListener l d)))) l
      = count_list (listeners d) l + 2
   \<and> times_notified (fst (notifyGlobalStateChanged code state (unregisterListener l d))) l = 0
   \<and> times_notified (fst (notifyNetworkReachable code sip media (unregisterListener l d))) l = 0
   \<and> times_notified
        (fst (notifyRegistrationStateChanged code cfg rstate message (unregisterListener l d))) l
      = 0
   \<and> map fst (fst (notifyGlobalStateChanged code state (unregisterListener l d)))
      = filter (\<lambda>x. x \<noteq> l) (listeners d)"
proof -
  have gone: "count_list (removeAll l xs) l = 0" for xs :: "listener list"
    by (induction xs) simp_all
  have rm: "removeAll l xs = filter (\<lambda>x. x \<noteq> l) xs" for xs :: "listener list"
    by (induction xs) simp_all
  show ?thesis
    by (simp add: notifyGlobalStateChanged_def notifyNetworkReachable_def
        notifyRegistrationStateChanged_def for_each_listener_trace times_notified_map
        registerListener_def unregisterListener_def gone rm times_notified_append
        times_notified_Cons times_notified_Nil comp_def)
qed

theorem registry_keeps_duplicates_witness:
  "times_notified
     (fst (notifyGlobalStateChanged meddling_listeners LinphoneGlobalOn
        (registerListener 5 (registerListener 5 three_listeners)))) 5 = 2
   \<and> times_notified
       (fst (notifyGlobalStateChanged meddling_listeners LinphoneGlobalOn
          (unregisterListener 5 (registerListener 5 (registerListener 5 three_listeners))))) 5 = 0
   \<and> listeners (unregisterListener 5 (registerListener 5 (registerListener 5 three_listeners)))
      = [1, 2, 3]"
proof -
  let ?cfg = "\<lparr>identity_address = IdentityAddress ''sip:alice@example.org''\<rparr>"
  let ?twice = "registerListener 5 (registerListener 5 three_listeners)"
  have before: "listeners three_listeners = [1, 2, 3]"
    by (simp add: three_listeners_def)
  have twice: "listeners ?twice = [1, 2, 3, 5, 5]"
    by (simp add: registerListener_def before)
  have "times_notified
      (fst (notifyGlobalStateChanged meddling_listeners LinphoneGlobalOn ?twice)) 5
      = count_list (listeners three_listeners) 5 + 2"
    using registry_keeps_duplicates [of 5 three_listeners meddling_listeners LinphoneGlobalOn
        True False ?cfg LinphoneRegistrationOk "''ok''"]
    by blast
  moreover have "times_notified
      (fst (notifyGlobalStateChanged meddling_listeners LinphoneGlobalOn
         (unregisterListener 5 ?twice))) 5 = 0
    \<and> listeners (unregisterListener 5 ?twice) = filter (\<lambda>x. x \<noteq> 5) (listeners ?twice)"
    using registry_keeps_duplicates [of 5 ?twice meddling_listeners LinphoneGlobalOn
        True False ?cfg LinphoneRegistrationOk "''ok''"]
    by blast
  ultimately show ?thesis
    by (simp add: before twice)
qed

section \<open>Entering background and foreground\<close>

text \<open>Claim C4, as stated, fails: two calls of \<^verbatim>\<open>enterBackground\<close> in a row can make two
  broadcasts. With a listener that calls \<^verbatim>\<open>enterForeground\<close> from inside its callback for
  entering the background, the first call returns with the session in the foreground again,
  and the second call is a genuine transition too: listener 1 is told twice that the session
  enters the background.\<close>

theorem enterBackground_twice_two_broadcasts:
  "\<not> isInBackground one_listener
   \<and> fst (enterBackground impatient_listeners one_listener)
       @ fst (enterBackground impatient_listeners
               (core_after (enterBackground impatient_listeners one_listener)))
     = [(1, onEnteringBackground), (1, onEnteringBackground)]
   \<and> delivered (enterBackground impatient_listeners one_listener)
       @ delivered (enterBackground impatient_listeners
               (core_after (enterBackground impatient_listeners one_listener)))
     = [(1, onEnteringBackground), (1, onEnteringForeground),
        (1, onEnteringBackground), (1, onEnteringForeground)]
   \<and> \<not> isInBackground (core_after (enterBackground impatient_listeners one_listener))"
  by (simp add: enterBackground_def notifyEnteringBackground_def enterForeground_def
      notifyEnteringForeground_def impatient_listeners_def quiet_listeners_def one_listener_def
      new_CorePrivate_def delivered_def core_after_def)

text \<open>Claim C4, amended. A new session is in the foreground. \<^verbatim>\<open>enterBackground\<close> in the
  background and \<^verbatim>\<open>enterForeground\<close> in the foreground change nothing and call no listener. A
  genuine transition first flips the flag and then makes one broadcast of the matching callback
  over the registry, the callbacks running on the core with the flag flipped. When none of
  the callbacks that this broadcast runs switches the execution state or has the callback for
  entering the background invoked inside it, then after \<^verbatim>\<open>enterBackground\<close> in the foreground
  the session is in the background, a second \<^verbatim>\<open>enterBackground\<close> right after is a no-op, and
  all that the two calls have made happen in the way of entering-background notifications,
  inside the callbacks too, is the one broadcast; likewise for \<^verbatim>\<open>enterForeground\<close>.\<close>

theorem execution_state_transitions:
  "\<not> isInBackground new_CorePrivate
   \<and> (isInBackground d \<longrightarrow> enterBackground code d = ([], [], d))
   \<and> (\<not> isInBackground d \<longrightarrow> enterForeground code d = ([], [], d))
   \<and> (\<not> isInBackground d \<longrightarrow>
        fst (enterBackground code d) = map (\<lambda>l. (l, onEnteringBackground)) (listeners d)
        \<and> core_after (enterBackground code d)
          = fold (\<lambda>l d. snd (code l onEnteringBackground d)) (listeners d)
              (d\<lparr>isInBackground := True\<rparr>))
   \<and> (isInBackground d \<longrightarrow>
        fst (enterForeground code d) = map (\<lambda>l. (l, onEnteringForeground)) (listeners d)
        \<and> core_after (enterForeground code d)
          = fold (\<lambda>l d. snd (code l onEnteringForeground d)) (listeners d)
              (d\<lparr>isInBackground := False\<rparr>))
   \<and> (no_reentry code onEnteringBackground (listeners d) (d\<lparr>isInBackground := True\<rparr>)
        \<and> \<not> isInBackground d \<longrightarrow>
        isInBackground (core_after (enterBackground code d))
        \<and> enterBackground code (core_after (enterBackground code d))
          = ([], [], core_after (enterBackground code d))
        \<and> fst (enterBackground code d)
            @ fst (enterBackground code (core_after (enterBackground code d)))
          = map (\<lambda>l. (l, onEnteringBackground)) (listeners d)
        \<and> filter (\<lambda>i. snd i = onEnteringBackground)
            (delivered (enterBackground code d)
             @ delivered (enterBackground code (core_after (enterBackground code d))))
          = map (\<lambda>l. (l, onEnteringBackground)) (listeners d))
   \<and> (no_reentry code onEnteringForeground (listeners d) (d\<lparr>isInBackground := False\<rparr>)
        \<and> isInBackground d \<longrightarrow>
        \<not> isInBackground (core_after (enterForeground code d))
        \<and> enterForeground code (core_after (enterForeground code d))
          = ([], [], core_after (enterForeground code d))
        \<and> fst (enterForeground code d)
            @ fst (enterForeground code (core_after (enterForeground code d)))
          = map (\<lambda>l. (l, onEnteringForeground)) (listeners d)
        \<and> filter (\<lambda>i. snd i = onEnteringForeground)
            (delivered (enterForeground code d)
             @ delivered (enterForeground code (core_after (enterForeground code d))))
          = map (\<lambda>l. (l, onEnteringForeground)) (listeners d))"
proof -
  let ?bg = onEnteringBackground and ?fg = onEnteringForeground
  have bg_is: "enterBackground code d
      = for_each_listener code ?bg (listeners d) (d\<lparr>isInBackground := True\<rparr>)"
    if "\<not> isInBackground d"
    using that by (simp add: enterBackground_def notifyEnteringBackground_def)
  have fg_is: "enterForeground code d
      = for_each_listener code ?fg (listeners d) (d\<lparr>isInBackground := False\<rparr>)"
    if "isInBackground d"
    using that by (simp add: enterForeground_def notifyEnteringForeground_def)
  have bg_noop: "enterBackground code e = ([], [], e)" if "isInBackground e" for e
    using that by (simp add: enterBackground_def notifyEnteringBackground_def)
  have fg_noop: "enterForeground code e = ([], [], e)" if "\<not> isInBackground e" for e
    using that by (simp add: enterForeground_def notifyEnteringForeground_def)
  have bg_trace: "fst (enterBackground code d) = map (\<lambda>l. (l, ?bg)) (listeners d)"
    if "\<not> isInBackground d"
    by (simp add: bg_is[OF that] for_each_listener_trace)
  have fg_trace: "fst (enterForeground code d) = map (\<lambda>l. (l, ?fg)) (listeners d)"
    if "isInBackground d"
    by (simp add: fg_is[OF that] for_each_listener_trace)
  have bg_calm: "isInBackground (core_after (enterBackground code d))
      \<and> filter (\<lambda>i. snd i = ?bg) (delivered (enterBackground code d))
        = map (\<lambda>l. (l, ?bg)) (listeners d)"
    if "no_reentry code ?bg (listeners d) (d\<lparr>isInBackground := True\<rparr>)" "\<not> isInBackground d"
    using for_each_listener_no_reentry [OF that(1)]
    by (simp add: bg_is[OF that(2)])
  have fg_calm: "\<not> isInBackground (core_after (enterForeground code d))
      \<and> filter (\<lambda>i. snd i = ?fg) (delivered (enterForeground code d))
        = map (\<lambda>l. (l, ?fg)) (listeners d)"
    if "no_reentry code ?fg (listeners d) (d\<lparr>isInBackground := False\<rparr>)" "isInBackground d"
    using for_each_listener_no_reentry [OF that(1)]
    by (simp add: fg_is[OF that(2)])
  show ?thesis
  proof (intro conjI impI)
    show "\<not> isInBackground new_CorePrivate"
      by (simp add: new_CorePrivate_def)
    show "enterBackground code d = ([], [], d)" if "isInBackground d"
      using that by (rule bg_noop)
    show "enterForeground code d = ([], [], d)" if "\<not> isInBackground d"
      using that by (rule fg_noop)
    show "fst (enterBackground code d) = map (\<lambda>l. (l, ?bg)) (listeners d)"
      if "\<not> isInBackground d"
      using that by (rule bg_trace)
    show "core_after (enterBackground code d)
        = fold (\<lambda>l d. snd (code l ?bg d)) (listeners d) (d\<lparr>isInBackground := True\<rparr>)"
      if "\<not> isInBackground d"
      by (simp add: bg_is[OF that] for_each_listener_state)
    show "fst (enterForeground code d) = map (\<lambda>l. (l, ?fg)) (listeners d)"
      if "isInBackground d"
      using that by (rule fg_trace)
    show "core_after (enterForeground code d)
        = fold (\<lambda>l d. snd (code l ?fg d)) (listeners d) (d\<lparr>isInBackground := False\<rparr>)"
      if "isInBackground d"
      by (simp add: fg_is[OF that] for_each_listener_state)
    show "isInBackground (core_after (enterBackground code d))"
      if "no_reentry code ?bg (listeners d) (d\<lparr>isInBackground := True\<rparr>) \<and> \<not> isInBackground d"
      using that bg_calm by blast
    show "enterBackground code (core_after (enterBackground code d))
        = ([], [], core_after (enterBackground code d))"
      if "no_reentry code ?bg (listeners d) (d\<lparr>isInBackground := True\<rparr>) \<and> \<not> isInBackground d"
      using that bg_calm bg_noop by blast
    show "fst (enterBackground code d)
          @ fst (enterBackground code (core_after (enterBackground code d)))
        = map (\<lambda>l. (l, ?bg)) (listeners d)"
      if "no_reentry code ?bg (listeners d) (d\<lparr>isInBackground := True\<rparr>) \<and> \<not> isInBackground d"
      using that bg_calm bg_noop [of "core_after (enterBackground code d)"] bg_trace by simp
    show "filter (\<lambda>i. snd i = ?bg)
          (delivered (enterBackground code d)
           @ delivered (enterBackground code (core_after (enterBackground code d))))
        = map (\<lambda>l. (l, ?bg)) (listeners d)"
      if "no_reentry code ?bg (listeners d) (d\<lparr>isInBackground := True\<rparr>) \<and> \<not> isInBackground d"
      using that bg_calm bg_noop [of "core_after (enterBackground code d)"]
      by (simp add: delivered_def)
    show "\<not> isInBackground (core_after (enterForeground code d))"
      if "no_reentry code ?fg (listeners d) (d\<lparr>isInBackground := False\<rparr>) \<and> isInBackground d"
      using that fg_calm by blast
    show "enterForeground code (core_after (enterForeground code d))
        = ([], [], core_after (enterForeground code d))"
      if "no_reentry code ?fg (listeners d) (d\<lparr>isInBackground := False\<rparr>) \<and> isInBackground d"
      using that fg_calm fg_noop by blast
    show "fst (enterForeground code d)
          @ fst (enterForeground code (core_after (enterForeground code d)))
        = map (\<lambda>l. (l, ?fg)) (listeners d)"
      if "no_reentry code ?fg (listeners d) (d\<lparr>isInBackground := False\<rparr>) \<and> isInBackground d"
      using that fg_calm fg_noop [of "core_after (enterForeground code d)"] fg_trace by simp
    show "filter (\<lambda>i. snd i = ?fg)
          (delivered (enterForeground code d)
           @ delivered (enterForeground code (core_after (enterForeground code d))))
        = map (\<lambda>l. (l, ?fg)) (listeners d)"
      if "no_reentry code ?fg (listeners d) (d\<lparr>isInBackground := False\<rparr>) \<and> isInBackground d"
      using that fg_calm fg_noop [of "core_after (enterForeground code d)"]
      by (simp add: delivered_def)
  qed
qed

theorem execution_state_transitions_witness:
  "enterForeground meddling_listeners new_CorePrivate = ([], [], new_CorePrivate)
   \<and> fst (enterBackground meddling_listeners three_listeners)
       @ fst (enterBackground meddling_listeners
               (core_after (enterBackground meddling_listeners three_listeners)))
     = [(1, onEnteringBackground), (2, onEnteringBackground), (3, onEnteringBackground)]
   \<and> delivered (enterBackground meddling_listeners three_listeners)
       @ delivered (enterBackground meddling_listeners
               (core_after (enterBackground meddling_listeners three_listeners)))
     = [(1, onEnteringBackground), (2, onEnteringBackground), (3, onEnteringBackground)]
   \<and> isInBackground (core_after (enterBackground meddling_listeners three_listeners))
   \<and> listeners (core_after (enterBackground meddling_listeners three_listeners)) = [2, 7]"
proof -
  let ?first = "enterBackground meddling_listeners three_listeners"
  have fg: "\<not> isInBackground three_listeners" "\<not> isInBackground new_CorePrivate"
    by (simp_all add: three_listeners_def new_CorePrivate_def)
  have before: "listeners three_listeners = [1, 2, 3]"
    by (simp add: three_listeners_def)
  have first: "delivered ?first
      = [(1, onEnteringBackground), (2, onEnteringBackground), (3, onEnteringBackground)]"
    "listeners (core_after ?first) = [2, 7]"
    by (simp_all add: enterBackground_def notifyEnteringBackground_def three_listeners_def
        new_CorePrivate_def meddling_listeners_def registerListener_def unregisterListener_def
        delivered_def core_after_def)
  have noop: "enterForeground meddling_listeners new_CorePrivate = ([], [], new_CorePrivate)"
    using execution_state_transitions [of new_CorePrivate meddling_listeners] fg(2)
    by blast
  have twice: "isInBackground (core_after ?first)
      \<and> enterBackground meddling_listeners (core_after ?first) = ([], [], core_after ?first)
      \<and> fst ?first @ fst (enterBackground meddling_listeners (core_after ?first))
        = map (\<lambda>l. (l, onEnteringBackground)) (listeners three_listeners)"
    using execution_state_transitions [of three_listeners meddling_listeners]
      no_reentry_meddling [of onEnteringBackground "listeners three_listeners"
        "three_listeners\<lparr>isInBackground := True\<rparr>"] fg(1)
    by blast
  have own: "fst ?first @ fst (enterBackground meddling_listeners (core_after ?first))
      = [(1, onEnteringBackground), (2, onEnteringBackground), (3, onEnteringBackground)]"
    using twice by (auto simp: before)
  have all: "delivered ?first @ delivered (enterBackground meddling_listeners (core_after ?first))
      = [(1, onEnteringBackground), (2, onEnteringBackground), (3, onEnteringBackground)]"
    using twice first(1) by (auto simp: delivered_def)
  show ?thesis
    using noop own all twice first(2) by blast
qed

section \<open>Shutdown\<close>

lemma turn_Cons:
  "calls (snd s) = c # cs \<Longrightarrow>
   turn rt s = (ms_usleep rt 10000 (fst (linphone_core_iterate rt (Call_terminate rt c s))),
                snd (linphone_core_iterate rt (Call_terminate rt c s)))"
  by (simp add: turn_def)

lemma turn_effects_Cons:
  "calls (snd s) = c # cs \<Longrightarrow> turn_effects s = [Terminate c, Iterate, Usleep 10000]"
  by (simp add: turn_effects_def)

lemma drain_calls_Nil: "calls (snd s) = [] \<Longrightarrow> drain_calls rt s made = Some (made, s)"
  by (subst drain_calls.simps) simp

lemma drain_calls_Cons:
  "calls (snd s) = c # cs \<Longrightarrow>
   drain_calls rt s made = drain_calls rt (turn rt s) (made @ turn_effects s)"
  by (subst drain_calls.simps) (simp add: turn_def turn_effects_def Let_def)

lemma effects_of_turns_Suc:
  "effects_of_turns rt (Suc k) s = turn_effects s @ effects_of_turns rt k (turn rt s)"
  unfolding effects_of_turns_def
  by (simp add: upt_conv_Cons map_Suc_upt[symmetric] funpow_swap1 comp_def del: upt_Suc)

lemma drain_calls_reaches:
  "calls (snd ((turn rt ^^ k) s)) = [] \<Longrightarrow>
   (\<And>i. i < k \<Longrightarrow> calls (snd ((turn rt ^^ i) s)) \<noteq> []) \<Longrightarrow>
   drain_calls rt s made = Some (made @ effects_of_turns rt k s, (turn rt ^^ k) s)"
proof (induction k arbitrary: s made)
  case 0
  then show ?case by (simp add: drain_calls_Nil effects_of_turns_def)
next
  case (Suc k)
  from Suc.prems(2)[of 0] obtain c cs where cs: "calls (snd s) = c # cs"
    by (cases "calls (snd s)") simp_all
  have a: "calls (snd ((turn rt ^^ k) (turn rt s))) = []"
    using Suc.prems(1) by (simp add: funpow_swap1)
  have b: "\<And>i. i < k \<Longrightarrow> calls (snd ((turn rt ^^ i) (turn rt s))) \<noteq> []"
    using Suc.prems(2)[of "Suc _"] by (simp add: funpow_swap1)
  have "drain_calls rt s made = drain_calls rt (turn rt s) (made @ turn_effects s)"
    by (rule drain_calls_Cons[OF cs])
  also have "\<dots> = Some ((made @ turn_effects s) @ effects_of_turns rt k (turn rt s),
      (turn rt ^^ k) (turn rt s))"
    by (rule Suc.IH[OF a b])
  finally show ?case by (simp add: effects_of_turns_Suc funpow_swap1)
qed

lemma drain_calls_returned:
  assumes ret: "drain_calls rt s made = Some r"
  shows "\<exists>k. calls (snd ((turn rt ^^ k) s)) = []
           \<and> (\<forall>i<k. calls (snd ((turn rt ^^ i) s)) \<noteq> [])
           \<and> r = (made @ effects_of_turns rt k s, (turn rt ^^ k) s)"
proof (induction rule: drain_calls.raw_induct[OF _ ret])
  case (1 drain_calls' rt s made r)
  show ?case
  proof (cases "calls (snd s)")
    case Nil
    with 1(2) have "r = (made, s)" by simp
    with Nil show ?thesis by (intro exI[of _ 0]) (simp add: effects_of_turns_def)
  next
    case (Cons c cs)
    from 1(2) Cons have again: "drain_calls' rt (turn rt s) (made @ turn_effects s) = Some r"
      by (simp add: turn_def turn_effects_def Let_def)
    have "\<exists>k. calls (snd ((turn rt ^^ k) (turn rt s))) = []
        \<and> (\<forall>i<k. calls (snd ((turn rt ^^ i) (turn rt s))) \<noteq> [])
        \<and> r = ((made @ turn_effects s) @ effects_of_turns rt k (turn rt s),
               (turn rt ^^ k) (turn rt s))"
      using again by (rule 1(1))
    then obtain k where k: "calls (snd ((turn rt ^^ k) (turn rt s))) = []"
      "\<forall>i<k. calls (snd ((turn rt ^^ i) (turn rt s))) \<noteq> []"
      "r = ((made @ turn_effects s) @ effects_of_turns rt k (turn rt s),
            (turn rt ^^ k) (turn rt s))"
      by blast
    have "\<forall>i<Suc k. calls (snd ((turn rt ^^ i) s)) \<noteq> []"
    proof (intro allI impI)
      fix i assume "i < Suc k"
      then show "calls (snd ((turn rt ^^ i) s)) \<noteq> []"
        using k(2) Cons by (cases i) (simp_all add: funpow_swap1)
    qed
    with k(1,3) show ?thesis
      by (intro exI[of _ "Suc k"]) (simp add: funpow_swap1 effects_of_turns_Suc)
  qed
qed

lemma drain_calls_prompt:
  assumes prompt: "\<And>e. calls (snd (turn rt e)) = tl (calls (snd e))"
  shows "drain_calls rt s made
     = Some (made @ concat (map (\<lambda>c. [Terminate c, Iterate, Usleep 10000]) (calls (snd s))),
             (turn rt ^^ length (calls (snd s))) s)"
proof (induction "calls (snd s)" arbitrary: s made)
  case Nil
  then show ?case by (simp add: drain_calls_Nil flip: Nil)
next
  case (Cons c cs)
  have cs: "calls (snd s) = c # cs" using Cons(2) by simp
  have rest: "cs = calls (snd (turn rt s))" by (simp add: prompt cs)
  have "drain_calls rt s made = drain_calls rt (turn rt s) (made @ turn_effects s)"
    by (rule drain_calls_Cons[OF cs])
  also have "\<dots> = Some ((made @ turn_effects s)
        @ concat (map (\<lambda>c. [Terminate c, Iterate, Usleep 10000]) (calls (snd (turn rt s)))),
      (turn rt ^^ length (calls (snd (turn rt s)))) (turn rt s))"
    by (rule Cons(1)[OF rest])
  finally show ?case
    by (simp add: cs rest[symmetric] funpow_swap1 turn_effects_Cons[OF cs])
qed

lemma calls_teardown: "calls (teardown d) = calls d"
  by (simp add: teardown_def)

text \<open>Claim C2. \<^verbatim>\<open>uninit\<close> returns exactly when some number \<open>k\<close> of poll cycles leaves the
  collection of calls empty, no smaller number doing so. Every one of these cycles begins with
  a call left, asks the first remaining call to terminate, then runs the event loop's tick on
  what the termination request left, then sleeps 10000 microseconds, and these three are its
  effects, in this order; the teardown works on the core that the last cycle left, and the
  clearing of the address cache is the last effect. So the collection of calls is empty
  whenever \<^verbatim>\<open>uninit\<close> has returned, and with no call to begin with \<^verbatim>\<open>uninit\<close> goes straight
  to the teardown. With a runtime that takes the first call out of the collection in every
  cycle, \<^verbatim>\<open>uninit\<close> does return, after one cycle per call, the calls being terminated in
  order. If no number of cycles empties the collection, \<^verbatim>\<open>uninit\<close> never returns.\<close>

theorem uninit_drains_all_calls:
  "(uninit rt s = Some (tr, s') \<longleftrightarrow>
      (\<exists>k. calls (snd ((turn rt ^^ k) s)) = []
          \<and> (\<forall>i<k. calls (snd ((turn rt ^^ i) s)) \<noteq> [])
          \<and> tr = concat (map (\<lambda>i. turn_effects ((turn rt ^^ i) s)) [0..<k])
                   @ [ClearSipAddressesCache]
          \<and> s' = (fst ((turn rt ^^ k) s), teardown (snd ((turn rt ^^ k) s)))))
   \<and> (calls (snd s) = c # cs \<longrightarrow>
        turn rt s = (ms_usleep rt 10000 (fst (linphone_core_iterate rt (Call_terminate rt c s))),
                     snd (linphone_core_iterate rt (Call_terminate rt c s)))
        \<and> turn_effects s = [Terminate c, Iterate, Usleep 10000]
        \<and> calls (snd (turn rt s)) = calls (snd (linphone_core_iterate rt (Call_terminate rt c s))))
   \<and> (calls (snd s) = [] \<longrightarrow>
        uninit rt s = Some ([ClearSipAddressesCache], fst s, teardown (snd s)))
   \<and> (uninit rt s = Some (tr, s') \<longrightarrow> calls (snd s') = [])
   \<and> ((\<forall>e. calls (snd (turn rt e)) = tl (calls (snd e))) \<longrightarrow>
        uninit rt s
          = Some (concat (map (\<lambda>c. [Terminate c, Iterate, Usleep 10000]) (calls (snd s)))
                    @ [ClearSipAddressesCache],
                  fst ((turn rt ^^ length (calls (snd s))) s),
                  teardown (snd ((turn rt ^^ length (calls (snd s))) s))))
   \<and> ((\<forall>k. calls (snd ((turn rt ^^ k) s)) \<noteq> []) \<longrightarrow> uninit rt s = None)"
proof (intro conjI impI)
  show char: "uninit rt s = Some (tr, s') \<longleftrightarrow>
      (\<exists>k. calls (snd ((turn rt ^^ k) s)) = []
          \<and> (\<forall>i<k. calls (snd ((turn rt ^^ i) s)) \<noteq> [])
          \<and> tr = concat (map (\<lambda>i. turn_effects ((turn rt ^^ i) s)) [0..<k])
                   @ [ClearSipAddressesCache]
          \<and> s' = (fst ((turn rt ^^ k) s), teardown (snd ((turn rt ^^ k) s))))"
  proof
    assume "uninit rt s = Some (tr, s')"
    then obtain made w d1 where r: "drain_calls rt s [] = Some (made, w, d1)"
      and tr: "tr = made @ [ClearSipAddressesCache]" and s': "s' = (w, teardown d1)"
      by (auto simp: uninit_def split: option.splits)
    from drain_calls_returned[OF r] obtain k where k: "calls (snd ((turn rt ^^ k) s)) = []"
      "\<forall>i<k. calls (snd ((turn rt ^^ i) s)) \<noteq> []"
      "(made, w, d1) = ([] @ effects_of_turns rt k s, (turn rt ^^ k) s)"
      by blast
    from k(3) have "made = effects_of_turns rt k s" "w = fst ((turn rt ^^ k) s)"
      "d1 = snd ((turn rt ^^ k) s)"
      by (simp_all add: prod_eq_iff)
    with k(1,2) tr s' show "\<exists>k. calls (snd ((turn rt ^^ k) s)) = []
          \<and> (\<forall>i<k. calls (snd ((turn rt ^^ i) s)) \<noteq> [])
          \<and> tr = concat (map (\<lambda>i. turn_effects ((turn rt ^^ i) s)) [0..<k])
                   @ [ClearSipAddressesCache]
          \<and> s' = (fst ((turn rt ^^ k) s), teardown (snd ((turn rt ^^ k) s)))"
      by (intro exI[of _ k]) (simp add: effects_of_turns_def)
  next
    assume "\<exists>k. calls (snd ((turn rt ^^ k) s)) = []
          \<and> (\<forall>i<k. calls (snd ((turn rt ^^ i) s)) \<noteq> [])
          \<and> tr = concat (map (\<lambda>i. turn_effects ((turn rt ^^ i) s)) [0..<k])
                   @ [ClearSipAddressesCache]
          \<and> s' = (fst ((turn rt ^^ k) s), teardown (snd ((turn rt ^^ k) s)))"
    then obtain k where k: "calls (snd ((turn rt ^^ k) s)) = []"
      "\<And>i. i < k \<Longrightarrow> calls (snd ((turn rt ^^ i) s)) \<noteq> []"
      "tr = effects_of_turns rt k s @ [ClearSipAddressesCache]"
      "s' = (fst ((turn rt ^^ k) s), teardown (snd ((turn rt ^^ k) s)))"
      unfolding effects_of_turns_def by blast
    show "uninit rt s = Some (tr, s')"
      by (simp add: uninit_def drain_calls_reaches[OF k(1,2)] k(3,4) case_prod_beta)
  qed
  show "turn rt s = (ms_usleep rt 10000 (fst (linphone_core_iterate rt (Call_terminate rt c s))),
                     snd (linphone_core_iterate rt (Call_terminate rt c s)))"
    if "calls (snd s) = c # cs"
    using that by (rule turn_Cons)
  show "turn_effects s = [Terminate c, Iterate, Usleep 10000]" if "calls (snd s) = c # cs"
    using that by (rule turn_effects_Cons)
  show "calls (snd (turn rt s)) = calls (snd (linphone_core_iterate rt (Call_terminate rt c s)))"
    if "calls (snd s) = c # cs"
    by (simp add: turn_Cons[OF that])
  show "uninit rt s = Some ([ClearSipAddressesCache], fst s, teardown (snd s))"
    if "calls (snd s) = []"
    by (simp add: uninit_def drain_calls_Nil[OF that] case_prod_beta)
  show "calls (snd s') = []" if "uninit rt s = Some (tr, s')"
    using that char by (auto simp: calls_teardown)
  show "uninit rt s
          = Some (concat (map (\<lambda>c. [Terminate c, Iterate, Usleep 10000]) (calls (snd s)))
                    @ [ClearSipAddressesCache],
                  fst ((turn rt ^^ length (calls (snd s))) s),
                  teardown (snd ((turn rt ^^ length (calls (snd s))) s)))"
    if "\<forall>e. calls (snd (turn rt e)) = tl (calls (snd e))"
  proof -
    have "calls (snd (turn rt e)) = tl (calls (snd e))" for e
      using that by blast
    then show ?thesis
      by (simp add: uninit_def drain_calls_prompt case_prod_beta)
  qed
  show "uninit rt s = None" if never: "\<forall>k. calls (snd ((turn rt ^^ k) s)) \<noteq> []"
  proof (cases "uninit rt s")
    case None
    then show ?thesis .
  next
    case (Some r)
    then obtain made s1 where "drain_calls rt s [] = Some (made, s1)"
      by (auto simp: uninit_def split: option.splits)
    from drain_calls_returned[OF this] never show ?thesis by blast
  qed
qed

text \<open>With the slow runtime each of the two calls is asked twice before a tick takes it out of
  the collection; with the prompt runtime once.\<close>

theorem uninit_drains_all_calls_witness:
  "uninit slow_runtime (1, two_calls)
     = Some ([Terminate 4, Iterate, Usleep 10000, Terminate 4, Iterate, Usleep 10000,
              Terminate 9, Iterate, Usleep 10000, Terminate 9, Iterate, Usleep 10000,
              ClearSipAddressesCache],
             1, new_CorePrivate)
   \<and> uninit prompt_runtime ((), two_calls)
     = Some ([Terminate 4, Iterate, Usleep 10000, Terminate 9, Iterate, Usleep 10000,
              ClearSipAddressesCache],
             (), new_CorePrivate)
   \<and> calls new_CorePrivate = []"
proof -
  let ?nine = "two_calls\<lparr>calls := [9]\<rparr>" and ?none = "two_calls\<lparr>calls := []\<rparr>"
  let ?s = "(Suc 0, two_calls)"
  let ?four = "Suc (Suc (Suc (Suc 0)))"
  have cs: "calls two_calls = [4, 9]"
    by (simp add: two_calls_def)
  have t: "turn slow_runtime (Suc 0, two_calls) = (0, two_calls)"
    "turn slow_runtime (0, two_calls) = (Suc 0, ?nine)"
    "turn slow_runtime (Suc 0, ?nine) = (0, ?nine)"
    "turn slow_runtime (0, ?nine) = (Suc 0, ?none)"
    by (simp_all add: turn_def slow_runtime_def cs)
  have e: "turn_effects (w, two_calls) = [Terminate 4, Iterate, Usleep 10000]"
    "turn_effects (w, ?nine) = [Terminate 9, Iterate, Usleep 10000]" for w :: nat
    by (simp_all add: turn_effects_def cs)
  have run: "(turn slow_runtime ^^ 0) ?s = (Suc 0, two_calls)"
    "(turn slow_runtime ^^ Suc 0) ?s = (0, two_calls)"
    "(turn slow_runtime ^^ Suc (Suc 0)) ?s = (Suc 0, ?nine)"
    "(turn slow_runtime ^^ Suc (Suc (Suc 0))) ?s = (0, ?nine)"
    "(turn slow_runtime ^^ ?four) ?s = (Suc 0, ?none)"
    by (simp_all add: t)
  have early: "calls (snd ((turn slow_runtime ^^ i) ?s)) \<noteq> []" if "i < ?four" for i
  proof -
    from that have "i = 0 \<or> i = Suc 0 \<or> i = Suc (Suc 0) \<or> i = Suc (Suc (Suc 0))" by arith
    then show ?thesis using run by (auto simp: cs)
  qed
  have torn: "teardown ?none = new_CorePrivate"
    by (simp add: teardown_def two_calls_def new_CorePrivate_def)
  have "\<exists>k. calls (snd ((turn slow_runtime ^^ k) ?s)) = []
      \<and> (\<forall>i<k. calls (snd ((turn slow_runtime ^^ i) ?s)) \<noteq> [])
      \<and> [Terminate 4, Iterate, Usleep 10000, Terminate 4, Iterate, Usleep 10000,
          Terminate 9, Iterate, Usleep 10000, Terminate 9, Iterate, Usleep 10000,
          ClearSipAddressesCache]
        = concat (map (\<lambda>i. turn_effects ((turn slow_runtime ^^ i) ?s)) [0..<k])
            @ [ClearSipAddressesCache]
      \<and> (Suc 0, new_CorePrivate)
        = (fst ((turn slow_runtime ^^ k) ?s), teardown (snd ((turn slow_runtime ^^ k) ?s)))"
  proof (intro exI[of _ ?four] conjI allI impI)
    show "calls (snd ((turn slow_runtime ^^ ?four) ?s)) = []"
      unfolding run by simp
    show "calls (snd ((turn slow_runtime ^^ i) ?s)) \<noteq> []" if "i < ?four" for i
      using that by (rule early)
    have "[0..<?four] = [0, Suc 0, Suc (Suc 0), Suc (Suc (Suc 0))]"
      by (simp add: upt_conv_Cons del: upt_Suc)
    then show "[Terminate 4, Iterate, Usleep 10000, Terminate 4, Iterate, Usleep 10000,
          Terminate 9, Iterate, Usleep 10000, Terminate 9, Iterate, Usleep 10000,
          ClearSipAddressesCache]
        = concat (map (\<lambda>i. turn_effects ((turn slow_runtime ^^ i) ?s)) [0..<?four])
            @ [ClearSipAddressesCache]"
      by (simp add: t e del: upt_Suc)
    show "(Suc 0, new_CorePrivate)
        = (fst ((turn slow_runtime ^^ ?four) ?s), teardown (snd ((turn slow_runtime ^^ ?four) ?s)))"
      unfolding run by (simp add: torn)
  qed
  then have slow: "uninit slow_runtime ?s
     = Some ([Terminate 4, Iterate, Usleep 10000, Terminate 4, Iterate, Usleep 10000,
              Terminate 9, Iterate, Usleep 10000, Terminate 9, Iterate, Usleep 10000,
              ClearSipAddressesCache],
             Suc 0, new_CorePrivate)"
    using uninit_drains_all_calls [of slow_runtime ?s _ "(Suc 0, new_CorePrivate)"]
    by blast
  have prompt: "\<forall>e. calls (snd (turn prompt_runtime e)) = tl (calls (snd e))"
    by (simp add: turn_def prompt_runtime_def split: list.split)
  have state: "teardown (snd (turn prompt_runtime (turn prompt_runtime ((), two_calls))))
      = new_CorePrivate"
    by (simp add: two_calls_def new_CorePrivate_def turn_def prompt_runtime_def teardown_def)
  have "uninit prompt_runtime ((), two_calls)
      = Some (concat (map (\<lambda>c. [Terminate c, Iterate, Usleep 10000])
                (calls (snd ((), two_calls)))) @ [ClearSipAddressesCache],
              fst ((turn prompt_runtime ^^ length (calls (snd ((), two_calls)))) ((), two_calls)),
              teardown (snd ((turn prompt_runtime ^^ length (calls (snd ((), two_calls))))
                ((), two_calls))))"
    using uninit_drains_all_calls [of prompt_runtime "((), two_calls)"] prompt by blast
  then have fast: "uninit prompt_runtime ((), two_calls)
     = Some ([Terminate 4, Iterate, Usleep 10000, Terminate 9, Iterate, Usleep 10000,
              ClearSipAddressesCache],
             (), new_CorePrivate)"
    by (simp add: state cs)
  have "calls new_CorePrivate = []"
    by (simp add: new_CorePrivate_def)
  with slow fast show ?thesis by simp
qed

section \<open>Initialisation\<close>

lemma strcmp_chars_eq_0: "strcmp_chars a b = 0 \<longleftrightarrow> a = b"
  by (induction a b rule: strcmp_chars.induct) auto

lemma storage_selection_configured:
  "config lc (''storage'', ''uri'') = Some uri \<Longrightarrow> uri \<noteq> [] \<Longrightarrow>
   config lc (''storage'', ''backend'') = Some b \<Longrightarrow>
   storage_selection env lc = Inr (if b = ''mysql'' then Mysql else Sqlite3, uri)"
  by (simp add: storage_selection_def lp_config_get_string_def L_C_TO_STRING_def strcmp_def
      strcmp_chars_eq_0)

lemma storage_selection_default:
  "config lc (''storage'', ''uri'') = None \<or> config lc (''storage'', ''uri'') = Some [] \<Longrightarrow>
   storage_selection env lc = Inr (Sqlite3, getDataPath env @ ''linphone.db'')"
  by (auto simp: storage_selection_def lp_config_get_string_def L_C_TO_STRING_def LINPHONE_DB_def)

lemma storage_selection_other_backend:
  "storage_selection env
     (lc\<lparr>config := [(''storage'', ''uri'') \<mapsto> ''foo'', (''storage'', ''backend'') \<mapsto> ''othervalue'']\<rparr>)
   = Inr (Sqlite3, ''foo'')"
  by (simp add: storage_selection_configured [where uri = "''foo''" and b = "''othervalue''"])

lemma storage_selection_null_backend:
  "config lc (''storage'', ''uri'') = Some uri \<Longrightarrow> uri \<noteq> [] \<Longrightarrow>
   config lc (''storage'', ''backend'') = None \<Longrightarrow>
   storage_selection env lc = Inl NullPointerDereference"
  by (simp add: storage_selection_def lp_config_get_string_def L_C_TO_STRING_def strcmp_def)

text \<open>Claim C5. With a uri and a backend key in the configuration the uri is used as it is, and
  the backend is \<open>Mysql\<close> exactly for the key \<open>mysql\<close> (\<open>storage_selection_configured\<close>); without
  a uri the backend is \<open>Sqlite3\<close> and the uri the data path followed by \<open>linphone.db\<close>
  (\<open>storage_selection_default\<close>). But with a uri and no backend key, where the claim promises
  the primary backend, \<^verbatim>\<open>init\<close> hands the null default of the second read to \<^verbatim>\<open>strcmp\<close>: the
  configuration \<^verbatim>\<open>[storage] uri=foo\<close> ends the run with a null pointer dereference.\<close>

theorem storage_selection_without_backend_key:
  "storage_selection prompt_collaborators uri_only_core = Inl NullPointerDereference
   \<and> init prompt_collaborators uri_only_core new_CorePrivate = Inl NullPointerDereference"
proof -
  have "storage_selection prompt_collaborators uri_only_core = Inl NullPointerDereference"
    by (rule storage_selection_null_backend [where uri = "''foo''"])
      (simp_all add: uri_only_core_def)
  then show ?thesis by (simp add: init_def)
qed

text \<open>Claim C6. When the storage engine cannot be opened with the chosen backend and uri,
  \<^verbatim>\<open>init\<close> ends with the fatal report and hands back no session; what the loading of the chat
  rooms would do plays no part in the outcome. Whenever \<^verbatim>\<open>init\<close> does hand back a session, the
  engine was opened, and the chat rooms were loaded into the core that holds it.\<close>

theorem init_connect_failure_is_fatal:
  "(storage_selection env lc = Inr (backend, uri)
      \<and> \<not> fst (MainDb_connect env backend uri (new_MainDb env)) \<longrightarrow>
        init env lc d = Inl (Fatal ''Unable to open linphone database.'')
        \<and> init (env\<lparr>loadChatRooms := load\<rparr>) lc d = init env lc d)
   \<and> (init env lc d = Inr d' \<longrightarrow>
        (\<exists>backend uri db.
           storage_selection env lc = Inr (backend, uri)
           \<and> MainDb_connect env backend uri (new_MainDb env) = (True, db)
           \<and> d' = loadChatRooms env
                    (d\<lparr>remoteListEventHandler := Some RemoteConferenceListEventHandler,
                       localListEventHandler := Some LocalConferenceListEventHandler,
                       mainDb := Some db\<rparr>)))"
proof (intro conjI impI)
  assume fails: "storage_selection env lc = Inr (backend, uri)
      \<and> \<not> fst (MainDb_connect env backend uri (new_MainDb env))"
  have same: "storage_selection (env\<lparr>loadChatRooms := load\<rparr>) lc = storage_selection env lc"
    by (simp add: storage_selection_def Let_def)
  show fatal: "init env lc d = Inl (Fatal ''Unable to open linphone database.'')"
    using fails by (simp add: init_def lFatal_def case_prod_beta)
  show "init (env\<lparr>loadChatRooms := load\<rparr>) lc d = init env lc d"
    using fails by (simp add: init_def same lFatal_def case_prod_beta)
next
  assume ok: "init env lc d = Inr d'"
  then show "\<exists>backend uri db.
           storage_selection env lc = Inr (backend, uri)
           \<and> MainDb_connect env backend uri (new_MainDb env) = (True, db)
           \<and> d' = loadChatRooms env
                    (d\<lparr>remoteListEventHandler := Some RemoteConferenceListEventHandler,
                       localListEventHandler := Some LocalConferenceListEventHandler,
                       mainDb := Some db\<rparr>)"
    by (auto simp: init_def lFatal_def split: sum.splits prod.splits if_splits)
qed

theorem init_connect_failure_is_fatal_witness:
  "init failing_collaborators plain_core new_CorePrivate
     = Inl (Fatal ''Unable to open linphone database.'')
   \<and> init (failing_collaborators\<lparr>loadChatRooms := registerListener 1\<rparr>) plain_core new_CorePrivate
     = Inl (Fatal ''Unable to open linphone database.'')
   \<and> init prompt_collaborators plain_core new_CorePrivate
     = Inr (new_CorePrivate
         \<lparr>mainDb := Some \<lparr>connectedTo = Some (Sqlite3, ''/data/linphone.db''),
                           MainDb_getUnreadChatMessageCount = 0\<rparr>,
          remoteListEventHandler := Some RemoteConferenceListEventHandler,
          localListEventHandler := Some LocalConferenceListEventHandler\<rparr>)"
proof -
  have sel: "storage_selection failing_collaborators plain_core = Inr (Sqlite3, ''/data/linphone.db'')"
    by (simp add: storage_selection_default plain_core_def failing_collaborators_def
        prompt_collaborators_def)
  have fails: "\<not> fst (MainDb_connect failing_collaborators Sqlite3 ''/data/linphone.db''
      (new_MainDb failing_collaborators))"
    by (simp add: failing_collaborators_def)
  have "init failing_collaborators plain_core new_CorePrivate
      = Inl (Fatal ''Unable to open linphone database.'')
    \<and> init (failing_collaborators\<lparr>loadChatRooms := registerListener 1\<rparr>) plain_core new_CorePrivate
      = init failing_collaborators plain_core new_CorePrivate"
    using init_connect_failure_is_fatal [of failing_collaborators plain_core Sqlite3
        "''/data/linphone.db''" new_CorePrivate "registerListener 1"] sel fails
    by blast
  moreover have "init prompt_collaborators plain_core new_CorePrivate
     = Inr (new_CorePrivate
         \<lparr>mainDb := Some \<lparr>connectedTo = Some (Sqlite3, ''/data/linphone.db''),
                           MainDb_getUnreadChatMessageCount = 0\<rparr>,
          remoteListEventHandler := Some RemoteConferenceListEventHandler,
          localListEventHandler := Some LocalConferenceListEventHandler\<rparr>)"
    by (simp add: init_def storage_selection_default plain_core_def prompt_collaborators_def
        new_CorePrivate_def)
  ultimately show ?thesis by simp
qed

section \<open>Counting unread messages\<close>

text \<open>Claim C3, as stated, fails: the count without argument is not computed from the chat rooms
  in memory. With no chat room in memory and a storage engine that reports three unread
  messages, it is 3, not the empty sum 0.\<close>

theorem unread_count_is_not_the_sum:
  "chatRooms unread_in_storage = []
   \<and> getUnreadChatMessageCount unread_in_storage = Inr 3
   \<and> getUnreadChatMessageCount unread_in_storage
       \<noteq> Inr (sum_list (map ChatRoom_getUnreadChatMessageCount (chatRooms unread_in_storage)))
   \<and> getUnreadChatMessageCount unread_in_storage \<noteq> Inr 0"
  by (simp add: unread_in_storage_def new_CorePrivate_def getUnreadChatMessageCount_def)

text \<open>Claim C3, amended. On a session that has its storage engine, the count without argument is
  the answer of the engine's unread-count query, whatever chat rooms are in memory.\<close>

theorem unread_count_is_storage_query:
  "(mainDb d = Some db \<longrightarrow>
      getUnreadChatMessageCount d = Inr (MainDb_getUnreadChatMessageCount db))
   \<and> getUnreadChatMessageCount (d\<lparr>chatRooms := rooms\<rparr>) = getUnreadChatMessageCount d"
  by (simp add: getUnreadChatMessageCount_def)

theorem unread_count_is_storage_query_witness:
  "getUnreadChatMessageCount
     (unread_in_storage
        \<lparr>chatRooms := [\<lparr>getPeerAddress = IdentityAddress ''sip:bob@example.org'',
                        getLocalAddress = IdentityAddress ''sip:alice@example.org'',
                        ChatRoom_getUnreadChatMessageCount = 5\<rparr>]\<rparr>) = Inr 3"
proof -
  have db: "mainDb unread_in_storage
      = Some \<lparr>connectedTo = Some (Sqlite3, ''/data/linphone.db''),
              MainDb_getUnreadChatMessageCount = 3\<rparr>"
    by (simp add: unread_in_storage_def)
  show ?thesis
    using unread_count_is_storage_query [of unread_in_storage
        "\<lparr>connectedTo = Some (Sqlite3, ''/data/linphone.db''),
          MainDb_getUnreadChatMessageCount = 3\<rparr>"
        "[\<lparr>getPeerAddress = IdentityAddress ''sip:bob@example.org'',
           getLocalAddress = IdentityAddress ''sip:alice@example.org'',
           ChatRoom_getUnreadChatMessageCount = 5\<rparr>]"] db
    by simp
qed

lemma fold_count_filter:
  "fold (\<lambda>chatRoom count. if P chatRoom then count + f chatRoom else count) rooms (acc :: int32)
   = acc + sum_list (map f (filter P rooms))"
  by (induction rooms arbitrary: acc) (simp_all add: add.assoc)

lemma fold_insert_identities:
  "fold (\<lambda>cfg. insert (identity_address cfg)) cfgs S = S \<union> identity_address ` set cfgs"
  by (induction cfgs arbitrary: S) auto

lemma sint_sum_list:
  fixes ws :: "int32 list"
  assumes "\<forall>w\<in>set ws. 0 \<le> sint w" and "sum_list (map sint ws) < 2 ^ 31"
  shows "sint (sum_list ws) = sum_list (map sint ws)"
  using assms
proof (induction ws)
  case Nil
  then show ?case by simp
next
  case (Cons w ws)
  have nonneg: "0 \<le> sum_list (map sint ws)"
    using Cons.prems(1) by (intro sum_list_nonneg) auto
  have w: "0 \<le> sint w" using Cons.prems(1) by simp
  have "sum_list (map sint ws) < 2 ^ 31"
    using Cons.prems(2) w by simp
  with Cons have ih: "sint (sum_list ws) = sum_list (map sint ws)" by simp
  have "sint (w + sum_list ws) = signed_take_bit 31 (sint w + sum_list (map sint ws))"
    by (simp add: sint_word_add ih)
  also have "\<dots> = sint w + sum_list (map sint ws)"
    using Cons.prems(2) w nonneg by (intro signed_take_bit_int_eq_self) simp_all
  finally show ?case by simp
qed

lemma getUnreadChatMessageCount_localAddress_sum:
  "getUnreadChatMessageCount_localAddress d addr
   = sum_list (map ChatRoom_getUnreadChatMessageCount
       (filter (\<lambda>r. getLocalAddress r = addr) (chatRooms d)))"
  by (simp add: getUnreadChatMessageCount_localAddress_def fold_count_filter)

lemma getUnreadChatMessageCountFromActiveLocals_sum:
  "getUnreadChatMessageCountFromActiveLocals lc d
   = sum_list (map ChatRoom_getUnreadChatMessageCount
       (filter (\<lambda>r. getLocalAddress r \<in> active_locals lc) (chatRooms d)))"
  by (simp add: getUnreadChatMessageCountFromActiveLocals_def fold_count_filter
      fold_insert_identities active_locals_def Let_def)

text \<open>Claim C8. The count for a local address is the sum, in the machine integers of the code,
  of the unread counts of exactly the chat rooms whose local address is equal to the given one;
  a chat room with another local address, wherever it stands in the collection, does not change
  the result; without a matching chat room the result is 0. Addresses are compared as they are
  (\<open>Alice\<close> does not match \<open>alice\<close>). Read as a signed number the result is the
  sum of the integers whenever the counts are not negative and their sum fits the type.\<close>

theorem unread_count_of_local_address:
  "getUnreadChatMessageCount_localAddress d addr
     = sum_list (map ChatRoom_getUnreadChatMessageCount
         (filter (\<lambda>r. getLocalAddress r = addr) (chatRooms d)))
   \<and> (getLocalAddress r \<noteq> addr \<longrightarrow>
        getUnreadChatMessageCount_localAddress (d\<lparr>chatRooms := rs @ r # rs'\<rparr>) addr
          = getUnreadChatMessageCount_localAddress (d\<lparr>chatRooms := rs @ rs'\<rparr>) addr)
   \<and> ((\<forall>r\<in>set (chatRooms d). getLocalAddress r \<noteq> addr) \<longrightarrow>
        getUnreadChatMessageCount_localAddress d addr = 0)
   \<and> ((\<forall>r\<in>set (chatRooms d).
          getLocalAddress r = addr \<longrightarrow> 0 \<le> sint (ChatRoom_getUnreadChatMessageCount r))
       \<and> (\<Sum>r\<leftarrow>filter (\<lambda>r. getLocalAddress r = addr) (chatRooms d).
            sint (ChatRoom_getUnreadChatMessageCount r)) < 2 ^ 31 \<longrightarrow>
        sint (getUnreadChatMessageCount_localAddress d addr)
          = (\<Sum>r\<leftarrow>filter (\<lambda>r. getLocalAddress r = addr) (chatRooms d).
               sint (ChatRoom_getUnreadChatMessageCount r)))"
proof (intro conjI impI)
  show "getUnreadChatMessageCount_localAddress d addr
     = sum_list (map ChatRoom_getUnreadChatMessageCount
         (filter (\<lambda>r. getLocalAddress r = addr) (chatRooms d)))"
    by (rule getUnreadChatMessageCount_localAddress_sum)
  show "getUnreadChatMessageCount_localAddress (d\<lparr>chatRooms := rs @ r # rs'\<rparr>) addr
          = getUnreadChatMessageCount_localAddress (d\<lparr>chatRooms := rs @ rs'\<rparr>) addr"
    if "getLocalAddress r \<noteq> addr"
    using that by (simp add: getUnreadChatMessageCount_localAddress_sum)
  show "getUnreadChatMessageCount_localAddress d addr = 0"
    if "\<forall>r\<in>set (chatRooms d). getLocalAddress r \<noteq> addr"
  proof -
    have "filter (\<lambda>r. getLocalAddress r = addr) (chatRooms d) = []"
      using that by (simp add: filter_empty_conv)
    then show ?thesis by (simp add: getUnreadChatMessageCount_localAddress_sum)
  qed
  show "sint (getUnreadChatMessageCount_localAddress d addr)
          = (\<Sum>r\<leftarrow>filter (\<lambda>r. getLocalAddress r = addr) (chatRooms d).
               sint (ChatRoom_getUnreadChatMessageCount r))"
    if "(\<forall>r\<in>set (chatRooms d).
          getLocalAddress r = addr \<longrightarrow> 0 \<le> sint (ChatRoom_getUnreadChatMessageCount r))
       \<and> (\<Sum>r\<leftarrow>filter (\<lambda>r. getLocalAddress r = addr) (chatRooms d).
            sint (ChatRoom_getUnreadChatMessageCount r)) < 2 ^ 31"
  proof -
    let ?ws = "map ChatRoom_getUnreadChatMessageCount
        (filter (\<lambda>r. getLocalAddress r = addr) (chatRooms d))"
    have "\<forall>w\<in>set ?ws. 0 \<le> sint w" using that by auto
    moreover have "sum_list (map sint ?ws) < 2 ^ 31" using that by (simp add: comp_def)
    ultimately have "sint (sum_list ?ws) = sum_list (map sint ?ws)" by (rule sint_sum_list)
    then show ?thesis by (simp add: getUnreadChatMessageCount_localAddress_sum comp_def)
  qed
qed

theorem unread_count_of_local_address_witness:
  "getUnreadChatMessageCount_localAddress three_rooms (IdentityAddress ''sip:alice@example.org'') = 2
   \<and> sint (getUnreadChatMessageCount_localAddress three_rooms
              (IdentityAddress ''sip:alice@example.org'')) = 2
   \<and> getUnreadChatMessageCount_localAddress three_rooms (IdentityAddress ''sip:Alice@example.org'') = 0"
proof -
  let ?alice = "IdentityAddress ''sip:alice@example.org''"
  let ?Alice = "IdentityAddress ''sip:Alice@example.org''"
  have rooms: "chatRooms three_rooms =
        [\<lparr>getPeerAddress = IdentityAddress ''sip:dave@example.org'',
          getLocalAddress = IdentityAddress ''sip:alice@example.org'',
          ChatRoom_getUnreadChatMessageCount = 2\<rparr>,
         \<lparr>getPeerAddress = IdentityAddress ''sip:dave@example.org'',
          getLocalAddress = IdentityAddress ''sip:bob@example.org'',
          ChatRoom_getUnreadChatMessageCount = 3\<rparr>,
         \<lparr>getPeerAddress = IdentityAddress ''sip:dave@example.org'',
          getLocalAddress = IdentityAddress ''sip:carol@example.org'',
          ChatRoom_getUnreadChatMessageCount = 5\<rparr>]"
    by (simp add: three_rooms_def)
  have none: "\<forall>r\<in>set (chatRooms three_rooms). getLocalAddress r \<noteq> ?Alice"
    by (simp add: rooms)
  have small: "(\<forall>r\<in>set (chatRooms three_rooms).
          getLocalAddress r = ?alice \<longrightarrow> 0 \<le> sint (ChatRoom_getUnreadChatMessageCount r))
       \<and> (\<Sum>r\<leftarrow>filter (\<lambda>r. getLocalAddress r = ?alice) (chatRooms three_rooms).
            sint (ChatRoom_getUnreadChatMessageCount r)) < 2 ^ 31"
    by (simp add: rooms)
  have "getUnreadChatMessageCount_localAddress three_rooms ?alice
      = sum_list (map ChatRoom_getUnreadChatMessageCount
          (filter (\<lambda>r. getLocalAddress r = ?alice) (chatRooms three_rooms)))
    \<and> sint (getUnreadChatMessageCount_localAddress three_rooms ?alice)
      = (\<Sum>r\<leftarrow>filter (\<lambda>r. getLocalAddress r = ?alice) (chatRooms three_rooms).
           sint (ChatRoom_getUnreadChatMessageCount r))"
    using unread_count_of_local_address [of three_rooms ?alice] small by blast
  moreover have "getUnreadChatMessageCount_localAddress three_rooms ?Alice = 0"
    using unread_count_of_local_address [of three_rooms ?Alice] none by blast
  ultimately show ?thesis by (simp add: rooms)
qed

text \<open>Claim C7. The count over the active locals is the sum, in the machine integers of the code,
  of the unread counts of exactly the chat rooms whose local address is in the set made of the
  primary contact's identity and the identities of the proxy configurations. Every such chat
  room is counted once: a chat room with an address outside the set does not change the result,
  and neither does a further proxy configuration whose identity is in the set already. Read as
  a signed number the result is the sum of the integers whenever the counts are not negative
  and their sum fits the type.\<close>

theorem unread_count_from_active_locals:
  "getUnreadChatMessageCountFromActiveLocals lc d
     = sum_list (map ChatRoom_getUnreadChatMessageCount
         (filter (\<lambda>r. getLocalAddress r \<in> active_locals lc) (chatRooms d)))
   \<and> (getLocalAddress r \<notin> active_locals lc \<longrightarrow>
        getUnreadChatMessageCountFromActiveLocals lc (d\<lparr>chatRooms := rs @ r # rs'\<rparr>)
          = getUnreadChatMessageCountFromActiveLocals lc (d\<lparr>chatRooms := rs @ rs'\<rparr>))
   \<and> (identity_address cfg \<in> active_locals lc \<longrightarrow>
        getUnreadChatMessageCountFromActiveLocals
            (lc\<lparr>proxy_config_list := proxy_config_list lc @ [cfg]\<rparr>) d
          = getUnreadChatMessageCountFromActiveLocals lc d)
   \<and> ((\<forall>r\<in>set (chatRooms d).
          getLocalAddress r \<in> active_locals lc \<longrightarrow>
            0 \<le> sint (ChatRoom_getUnreadChatMessageCount r))
       \<and> (\<Sum>r\<leftarrow>filter (\<lambda>r. getLocalAddress r \<in> active_locals lc) (chatRooms d).
            sint (ChatRoom_getUnreadChatMessageCount r)) < 2 ^ 31 \<longrightarrow>
        sint (getUnreadChatMessageCountFromActiveLocals lc d)
          = (\<Sum>r\<leftarrow>filter (\<lambda>r. getLocalAddress r \<in> active_locals lc) (chatRooms d).
               sint (ChatRoom_getUnreadChatMessageCount r)))"
proof (intro conjI impI)
  show "getUnreadChatMessageCountFromActiveLocals lc d
     = sum_list (map ChatRoom_getUnreadChatMessageCount
         (filter (\<lambda>r. getLocalAddress r \<in> active_locals lc) (chatRooms d)))"
    by (rule getUnreadChatMessageCountFromActiveLocals_sum)
  show "getUnreadChatMessageCountFromActiveLocals lc (d\<lparr>chatRooms := rs @ r # rs'\<rparr>)
          = getUnreadChatMessageCountFromActiveLocals lc (d\<lparr>chatRooms := rs @ rs'\<rparr>)"
    if "getLocalAddress r \<notin> active_locals lc"
    using that by (simp add: getUnreadChatMessageCountFromActiveLocals_sum)
  show "getUnreadChatMessageCountFromActiveLocals
            (lc\<lparr>proxy_config_list := proxy_config_list lc @ [cfg]\<rparr>) d
          = getUnreadChatMessageCountFromActiveLocals lc d"
    if "identity_address cfg \<in> active_locals lc"
  proof -
    have "active_locals (lc\<lparr>proxy_config_list := proxy_config_list lc @ [cfg]\<rparr>) = active_locals lc"
      using that by (auto simp: active_locals_def)
    then show ?thesis by (simp add: getUnreadChatMessageCountFromActiveLocals_sum)
  qed
  show "sint (getUnreadChatMessageCountFromActiveLocals lc d)
          = (\<Sum>r\<leftarrow>filter (\<lambda>r. getLocalAddress r \<in> active_locals lc) (chatRooms d).
               sint (ChatRoom_getUnreadChatMessageCount r))"
    if "(\<forall>r\<in>set (chatRooms d).
          getLocalAddress r \<in> active_locals lc \<longrightarrow>
            0 \<le> sint (ChatRoom_getUnreadChatMessageCount r))
       \<and> (\<Sum>r\<leftarrow>filter (\<lambda>r. getLocalAddress r \<in> active_locals lc) (chatRooms d).
            sint (ChatRoom_getUnreadChatMessageCount r)) < 2 ^ 31"
  proof -
    let ?ws = "map ChatRoom_getUnreadChatMessageCount
        (filter (\<lambda>r. getLocalAddress r \<in> active_locals lc) (chatRooms d))"
    have "\<forall>w\<in>set ?ws. 0 \<le> sint w" using that by auto
    moreover have "sum_list (map sint ?ws) < 2 ^ 31" using that by (simp add: comp_def)
    ultimately have "sint (sum_list ?ws) = sum_list (map sint ?ws)" by (rule sint_sum_list)
    then show ?thesis by (simp add: getUnreadChatMessageCountFromActiveLocals_sum comp_def)
  qed
qed

theorem unread_count_from_active_locals_witness:
  "getUnreadChatMessageCountFromActiveLocals plain_core three_rooms = 5
   \<and> sint (getUnreadChatMessageCountFromActiveLocals plain_core three_rooms) = 5
   \<and> getUnreadChatMessageCountFromActiveLocals
       (plain_core\<lparr>proxy_config_list :=
          [\<lparr>identity_address = IdentityAddress ''sip:alice@example.org''\<rparr>]\<rparr>) three_rooms = 5"
proof -
  let ?alice = "\<lparr>identity_address = IdentityAddress ''sip:alice@example.org''\<rparr>"
  let ?once = "plain_core\<lparr>proxy_config_list := [?alice]\<rparr>"
  have rooms: "chatRooms three_rooms =
        [\<lparr>getPeerAddress = IdentityAddress ''sip:dave@example.org'',
          getLocalAddress = IdentityAddress ''sip:alice@example.org'',
          ChatRoom_getUnreadChatMessageCount = 2\<rparr>,
         \<lparr>getPeerAddress = IdentityAddress ''sip:dave@example.org'',
          getLocalAddress = IdentityAddress ''sip:bob@example.org'',
          ChatRoom_getUnreadChatMessageCount = 3\<rparr>,
         \<lparr>getPeerAddress = IdentityAddress ''sip:dave@example.org'',
          getLocalAddress = IdentityAddress ''sip:carol@example.org'',
          ChatRoom_getUnreadChatMessageCount = 5\<rparr>]"
    by (simp add: three_rooms_def)
  have active: "active_locals plain_core
      = {IdentityAddress ''sip:bob@example.org'', IdentityAddress ''sip:alice@example.org''}"
    by (simp add: active_locals_def plain_core_def)
  have twice: "?once\<lparr>proxy_config_list := proxy_config_list ?once @ [?alice]\<rparr> = plain_core"
    by (simp add: plain_core_def)
  have listed: "identity_address ?alice \<in> active_locals ?once"
    by (simp add: active_locals_def)
  have small: "(\<forall>r\<in>set (chatRooms three_rooms).
          getLocalAddress r \<in> active_locals plain_core \<longrightarrow>
            0 \<le> sint (ChatRoom_getUnreadChatMessageCount r))
       \<and> (\<Sum>r\<leftarrow>filter (\<lambda>r. getLocalAddress r \<in> active_locals plain_core) (chatRooms three_rooms).
            sint (ChatRoom_getUnreadChatMessageCount r)) < 2 ^ 31"
    by (simp add: rooms active)
  have "getUnreadChatMessageCountFromActiveLocals plain_core three_rooms
      = sum_list (map ChatRoom_getUnreadChatMessageCount
          (filter (\<lambda>r. getLocalAddress r \<in> active_locals plain_core) (chatRooms three_rooms)))
    \<and> sint (getUnreadChatMessageCountFromActiveLocals plain_core three_rooms)
      = (\<Sum>r\<leftarrow>filter (\<lambda>r. getLocalAddress r \<in> active_locals plain_core) (chatRooms three_rooms).
           sint (ChatRoom_getUnreadChatMessageCount r))"
    using unread_count_from_active_locals [of plain_core three_rooms] small by blast
  moreover have "getUnreadChatMessageCountFromActiveLocals plain_core three_rooms
      = getUnreadChatMessageCountFromActiveLocals ?once three_rooms"
    using unread_count_from_active_locals [of ?once three_rooms _ _ _ ?alice] listed
    unfolding twice by blast
  ultimately show ?thesis by (simp add: rooms active)
qed

end
